theory Spec2Isabelle
  imports Main "HOL-Library.Sublist" "HOL-Library.AList" "HOL-Library.Word"
begin

section \<open>node-linker-pro: the external node\_modules linker\<close>

text \<open>
  A shallow embedding of \<^verbatim>\<open>node-linker-pro.mjs\<close>. The script is a sequence of
  filesystem calls; the filesystem, the platform, the process environment and the
  spawned \<^verbatim>\<open>npm install\<close> are its surroundings and are modelled explicitly:
  \<^item> a path is a root (absent for a relative path) and a list of segments, the form
    in which Node's \<^verbatim>\<open>path\<close> module treats the text of a path;
  \<^item> the filesystem is a tree of directories, regular files and links;
  \<^item> every \<^verbatim>\<open>fs/promises\<close> call either fails (an error value) or returns,
    and is recorded in a trace;
  \<^item> an exception of the script is an \<open>Inl\<close> result that skips the rest of
    \<^verbatim>\<open>main\<close>.
\<close>

subsection \<open>Paths (Node's \<^verbatim>\<open>path\<close> module)\<close>

text \<open>
  \<open>PPath r ss\<close>: \<open>r = Some d\<close> is an absolute path below the root \<open>d\<close>
  (\<open>''/''\<close> on POSIX, a drive such as \<open>''C:''\<close> on Windows), \<open>r = None\<close> a relative
  one; \<open>ss\<close> are the segments between separators, in order.
\<close>

datatype ppath = PPath (root: "string option") (segs: "string list")

text \<open>
  \<^verbatim>\<open>normalizeString\<close> of Node: empty and \<open>.\<close> segments vanish, \<open>..\<close> removes
  the segment before it; above the start of a relative path \<open>..\<close> is kept
  (\<open>allowAboveRoot\<close>), above the root of an absolute one it is dropped.
\<close>

definition normalizeStep :: "bool \<Rightarrow> string list \<Rightarrow> string \<Rightarrow> string list" where
  "normalizeStep allowAboveRoot res s =
     (if s = [] \<or> s = ''.'' then res
      else if s = ''..'' then
        (if res \<noteq> [] \<and> last res \<noteq> ''..'' then butlast res
         else if allowAboveRoot then res @ [''..'']
         else res)
      else res @ [s])"

definition normalizeString :: "bool \<Rightarrow> string list \<Rightarrow> string list" where
  "normalizeString allowAboveRoot ss = foldl (normalizeStep allowAboveRoot) [] ss"

definition path_normalize :: "ppath \<Rightarrow> ppath" where
  "path_normalize p = PPath (root p) (normalizeString (root p = None) (segs p))"

text \<open>\<^verbatim>\<open>path.join(p, s1, ..., sn)\<close> where the later arguments are single segments.\<close>

definition path_join :: "ppath \<Rightarrow> string list \<Rightarrow> ppath" where
  "path_join p ss = path_normalize (PPath (root p) (segs p @ ss))"

definition path_dirname :: "ppath \<Rightarrow> ppath" where
  "path_dirname p = PPath (root p) (butlast (segs p))"

text \<open>
  \<^verbatim>\<open>path.resolve(a, b)\<close> in the working directory \<open>wd\<close>: the rightmost absolute
  argument starts the result, the arguments after it are appended, the whole is
  normalised. \<^verbatim>\<open>path.resolve(p)\<close> is \<open>path_resolve wd (PPath None []) p\<close>.
\<close>

definition path_resolve :: "ppath \<Rightarrow> ppath \<Rightarrow> ppath \<Rightarrow> ppath" where
  "path_resolve wd a b =
     (if root b \<noteq> None then path_normalize b
      else if root a \<noteq> None then path_normalize (PPath (root a) (segs a @ segs b))
      else path_normalize (PPath (root wd) (segs wd @ segs a @ segs b)))"

text \<open>
  \<^verbatim>\<open>toLowerCase\<close> on the text of a path, part by part. The lowering of a string
  is the one of the JavaScript engine, with its Unicode tables, and is taken as the
  argument \<open>low\<close>; \<open>lower_ascii\<close>, which lowers the letters A to Z, serves the
  samples.
\<close>

definition lower_char :: "char \<Rightarrow> char" where
  "lower_char c =
     (let n = (of_char c :: nat) in if 65 \<le> n \<and> n \<le> 90 then char_of (n + 32) else c)"

definition lower_ascii :: "string \<Rightarrow> string" where
  "lower_ascii s = map lower_char s"

definition toLowerCase :: "(string \<Rightarrow> string) \<Rightarrow> ppath \<Rightarrow> ppath" where
  "toLowerCase low p = PPath (map_option low (root p)) (map low (segs p))"

subsection \<open>Digests\<close>

text \<open>
  \<^verbatim>\<open>digest("hex")\<close>: two lower-case hexadecimal digits for every byte of the
  digest.
\<close>

definition hexdigit :: "nat \<Rightarrow> char" where
  "hexdigit n = ''0123456789abcdef'' ! (n mod 16)"

definition hexbyte :: "8 word \<Rightarrow> string" where
  "hexbyte b = [hexdigit (unat b div 16), hexdigit (unat b mod 16)]"

definition hex :: "8 word list \<Rightarrow> string" where
  "hex bs = concat (map hexbyte bs)"

subsection \<open>The filesystem\<close>

text \<open>
  A node is a regular file with its content, a link (symbolic link or junction) with
  the path stored in it, or a directory with its entries. A location is the list of
  names from the top of the tree: the root of an absolute path, then its segments.
  A link is never followed, neither on the way to a location nor at its end: a path
  through a link or a regular file names nothing, and \<^verbatim>\<open>..\<close> is resolved on the
  text of a path, as \<^verbatim>\<open>path.resolve\<close> does. Names are compared as they are
  written.
\<close>

datatype node = File string | Link ppath | Dir "(string \<times> node) list"

datatype kind = IsFile | IsLink | IsDir

fun kind_of :: "node \<Rightarrow> kind" where
  "kind_of (File _) = IsFile"
| "kind_of (Link _) = IsLink"
| "kind_of (Dir _) = IsDir"

fun lookup :: "node \<Rightarrow> string list \<Rightarrow> node option" where
  "lookup n [] = Some n"
| "lookup (Dir es) (c # cs) = (case map_of es c of None \<Rightarrow> None | Some m \<Rightarrow> lookup m cs)"
| "lookup _ (c # cs) = None"

text \<open>\<open>put t p v\<close> stores \<open>v\<close> at \<open>p\<close> when the parent of \<open>p\<close> is a directory;
  \<open>del t p\<close> removes what is at \<open>p\<close>, with everything below it.\<close>

fun put :: "node \<Rightarrow> string list \<Rightarrow> node \<Rightarrow> node" where
  "put n [] v = v"
| "put (Dir es) [c] v = Dir (AList.update c v es)"
| "put (Dir es) (c # cs) v =
     (case map_of es c of None \<Rightarrow> Dir es | Some m \<Rightarrow> Dir (AList.update c (put m cs v) es))"
| "put n (c # cs) v = n"

fun del :: "node \<Rightarrow> string list \<Rightarrow> node" where
  "del n [] = n"
| "del (Dir es) [c] = Dir (AList.delete c es)"
| "del (Dir es) (c # cs) =
     (case map_of es c of None \<Rightarrow> Dir es | Some m \<Rightarrow> Dir (AList.update c (del m cs) es))"
| "del n (c # cs) = n"

text \<open>
  \<^verbatim>\<open>mkdir(p, {recursive: true})\<close>: every missing directory on the way is created;
  it fails when a name on the way is taken by something that is not a directory, a
  link included. The operating system follows a link on the way, and creates along
  the text as it is given where \<open>mkdirp\<close> creates along the normalised path; the
  two agree on a path whose text is normalised and on which no link lies
  (\<open>direct\<close> below).
\<close>

fun mkdirp :: "node \<Rightarrow> string list \<Rightarrow> node option" where
  "mkdirp (Dir es) [] = Some (Dir es)"
| "mkdirp (Dir es) (c # cs) =
     (case map_of es c of
        None \<Rightarrow> map_option (\<lambda>m. Dir (es @ [(c, m)])) (mkdirp (Dir []) cs)
      | Some m \<Rightarrow> map_option (\<lambda>m'. Dir (AList.update c m' es)) (mkdirp m cs))"
| "mkdirp _ _ = None"

definition parent_is_dir :: "node \<Rightarrow> string list \<Rightarrow> bool" where
  "parent_is_dir t p =
     (p \<noteq> [] \<and> (case lookup t (butlast p) of Some (Dir _) \<Rightarrow> True | _ \<Rightarrow> False))"

text \<open>
  \<^verbatim>\<open>rename(src, dst)\<close>. Nothing moves below itself (\<^verbatim>\<open>EINVAL\<close>), and a
  directory never replaces a file or a link, nor a file or a link a directory. As
  \<^verbatim>\<open>rename(2)\<close> has it, a directory replaces an empty directory and no other
  (\<^verbatim>\<open>ENOTEMPTY\<close>); on Windows (\<open>win\<close>) it replaces no directory at all, not even
  an empty one (\<^verbatim>\<open>EPERM\<close>). Any other refusal, such as a move across volumes, is a
  fault of the surroundings below.
\<close>

definition rename_tree :: "bool \<Rightarrow> node \<Rightarrow> string list \<Rightarrow> string list \<Rightarrow> node option" where
  "rename_tree win t src dst =
     (case lookup t src of
        None \<Rightarrow> None
      | Some n \<Rightarrow>
          if src = dst then Some t
          else if prefix src dst then None
          else if \<not> parent_is_dir t dst then None
          else (case lookup t dst of
                  None \<Rightarrow> Some (put (del t src) dst n)
                | Some (Dir es) \<Rightarrow>
                    (if \<not> win \<and> kind_of n = IsDir \<and> es = []
                     then Some (put (del t src) dst n) else None)
                | Some _ \<Rightarrow>
                    (if kind_of n = IsDir then None else Some (put (del t src) dst n))))"

subsection \<open>The process and its surroundings\<close>

datatype platform = Win32 | Darwin | Linux

datatype linktype = Junction | DirLink

datatype syscall =
    Lstat ppath
  | Readlink ppath
  | Readdir ppath
  | Mkdir ppath
  | Rename ppath ppath
  | Rm ppath
  | Symlink ppath ppath linktype

text \<open>
  What the script reads and never changes: \<^verbatim>\<open>process.platform\<close>,
  \<^verbatim>\<open>process.argv\<close>, \<^verbatim>\<open>process.cwd()\<close>, \<^verbatim>\<open>os.homedir()\<close>, \<^verbatim>\<open>os.tmpdir()\<close>,
  \<^verbatim>\<open>Date.now()\<close> and two variables of the environment. \<open>override\<close> is
  \<^verbatim>\<open>EXTERNAL_NODE_MODULES_DIR\<close>, \<open>None\<close> when it is unset or the empty string;
  \<open>localappdata\<close> is \<open>None\<close> when \<^verbatim>\<open>LOCALAPPDATA\<close> is unset. \<open>sha1\<close> is the
  SHA-1 digest of the text of a path, as bytes; \<open>lower\<close> is
  \<^verbatim>\<open>String.prototype.toLowerCase\<close>. \<open>faults\<close> are the calls the operating system
  refuses whatever the tree holds (permissions, a volume boundary, a disabled link
  primitive). \<open>npm\<close> is the installer: its exit code (\<open>None\<close> when a signal ended
  it) and what it leaves of the tree.
\<close>

record env =
  platform :: platform
  argv :: "string list"
  cwd :: ppath
  homedir :: ppath
  tmpdir :: ppath
  now :: nat
  localappdata :: "ppath option"
  override :: "ppath option"
  sha1 :: "ppath \<Rightarrow> 8 word list"
  lower :: "string \<Rightarrow> string"
  faults :: "syscall list"
  npm :: "node \<Rightarrow> int option \<times> node"

datatype message =
    HelpText
  | AlreadyLinked ppath
  | Moved ppath
  | Linked ppath linktype
  | Installing
  | AlreadyCached

text \<open>
  The exceptions of the script, one constructor for each \<^verbatim>\<open>throw\<close> and
  \<^verbatim>\<open>reject\<close>; \<open>IOError\<close> is a rejected \<^verbatim>\<open>fs/promises\<close> call.
\<close>

datatype error =
    LinkMismatch ppath
  | LinkUnsupported
  | LinkCreationFailed syscall
  | LinkVerificationFailed ppath
  | InstallerFailure "int option"
  | IOError syscall

datatype event = Call syscall | Print message | PrintError error | Spawn

record world =
  fs :: node
  trace :: "event list"

type_synonym 'a io = "world \<Rightarrow> (error + 'a) \<times> world"

definition bind :: "'a io \<Rightarrow> ('a \<Rightarrow> 'b io) \<Rightarrow> 'b io" where
  "bind m f w = (case m w of (Inl e, w') \<Rightarrow> (Inl e, w') | (Inr x, w') \<Rightarrow> f x w')"

definition return :: "'a \<Rightarrow> 'a io" where
  "return x w = (Inr x, w)"

definition throw :: "error \<Rightarrow> 'a io" where
  "throw e w = (Inl e, w)"

text \<open>\<open>attempt m\<close> is \<^verbatim>\<open>try { await m } catch {}\<close>.\<close>

definition attempt :: "'a io \<Rightarrow> unit io" where
  "attempt m w = (case m w of (_, w') \<Rightarrow> (Inr (), w'))"

definition console_log :: "message \<Rightarrow> unit io" where
  "console_log m w = (Inr (), w\<lparr>trace := trace w @ [Print m]\<rparr>)"

subsection \<open>The calls of \<^verbatim>\<open>fs/promises\<close>\<close>

definition key :: "env \<Rightarrow> ppath \<Rightarrow> string list" where
  "key E p =
     (let a = path_resolve (cwd E) (PPath None []) p
      in (case root a of None \<Rightarrow> segs a | Some d \<Rightarrow> d # segs a))"

text \<open>A call is traced, then refused if it is a fault, then tried on the tree.\<close>

definition syscall_io :: "env \<Rightarrow> syscall \<Rightarrow> (node \<Rightarrow> ('a \<times> node) option) \<Rightarrow> 'a io" where
  "syscall_io E c f w =
     (let w' = w\<lparr>trace := trace w @ [Call c]\<rparr>
      in if c \<in> set (faults E) then (Inl (IOError c), w')
         else (case f (fs w) of
                 None \<Rightarrow> (Inl (IOError c), w')
               | Some (x, t) \<Rightarrow> (Inr x, w'\<lparr>fs := t\<rparr>)))"

definition lstat :: "env \<Rightarrow> ppath \<Rightarrow> kind io" where
  "lstat E p = syscall_io E (Lstat p) (\<lambda>t. map_option (\<lambda>n. (kind_of n, t)) (lookup t (key E p)))"

definition readlink :: "env \<Rightarrow> ppath \<Rightarrow> ppath io" where
  "readlink E p =
     syscall_io E (Readlink p)
       (\<lambda>t. case lookup t (key E p) of Some (Link l) \<Rightarrow> Some (l, t) | _ \<Rightarrow> None)"

definition readdir :: "env \<Rightarrow> ppath \<Rightarrow> string list io" where
  "readdir E p =
     syscall_io E (Readdir p)
       (\<lambda>t. case lookup t (key E p) of Some (Dir es) \<Rightarrow> Some (map fst es, t) | _ \<Rightarrow> None)"

definition mkdir :: "env \<Rightarrow> ppath \<Rightarrow> unit io" where
  "mkdir E p = syscall_io E (Mkdir p) (\<lambda>t. map_option (\<lambda>t'. ((), t')) (mkdirp t (key E p)))"

definition rename :: "env \<Rightarrow> ppath \<Rightarrow> ppath \<Rightarrow> unit io" where
  "rename E src dst =
     syscall_io E (Rename src dst)
       (\<lambda>t. map_option (\<lambda>t'. ((), t')) (rename_tree (platform E = Win32) t (key E src) (key E dst)))"

text \<open>\<^verbatim>\<open>rm(p, {recursive: true, force: true})\<close>: a missing \<open>p\<close> is no error.\<close>

definition rm :: "env \<Rightarrow> ppath \<Rightarrow> unit io" where
  "rm E p = syscall_io E (Rm p) (\<lambda>t. Some ((), del t (key E p)))"

text \<open>
  \<^verbatim>\<open>symlink(target, p, type)\<close>: \<open>p\<close> must be free and its parent a directory. A
  junction stores its target as an absolute path, any other link as it is given.
\<close>

definition symlink :: "env \<Rightarrow> ppath \<Rightarrow> ppath \<Rightarrow> linktype \<Rightarrow> unit io" where
  "symlink E target p ty =
     syscall_io E (Symlink target p ty)
       (\<lambda>t. if lookup t (key E p) \<noteq> None \<or> \<not> parent_is_dir t (key E p) then None
            else Some ((), put t (key E p)
                   (Link (if ty = Junction then path_resolve (cwd E) (PPath None []) target
                          else target))))"

subsection \<open>The script\<close>

definition isWin :: "env \<Rightarrow> bool" where
  "isWin E = (platform E = Win32)"

definition projectDir :: "env \<Rightarrow> ppath" where
  "projectDir E = cwd E"

definition nmPath :: "env \<Rightarrow> ppath" where
  "nmPath E = path_join (projectDir E) [''node_modules'']"

definition defaultStoreDir :: "env \<Rightarrow> ppath" where
  "defaultStoreDir E =
     (if isWin E then
        (let base = (case localappdata E of
                       Some b \<Rightarrow> b
                     | None \<Rightarrow> path_join (homedir E) [''AppData'', ''Local''])
         in path_join base [''Temp'', ''node_modules_cache''])
      else if platform E = Darwin then
        path_join (homedir E) [''Library'', ''Caches'', ''node_modules_store'']
      else path_join (homedir E) [''.cache'', ''node_modules_store''])"

definition storeDir :: "env \<Rightarrow> ppath" where
  "storeDir E = (case override E of Some d \<Rightarrow> d | None \<Rightarrow> defaultStoreDir E)"

definition hash :: "env \<Rightarrow> string" where
  "hash E = hex (sha1 E (projectDir E))"

definition target :: "env \<Rightarrow> ppath" where
  "target E = path_join (storeDir E) [hash E]"

definition exists :: "env \<Rightarrow> ppath \<Rightarrow> bool io" where
  "exists E p w = (case lstat E p w of (Inl _, w') \<Rightarrow> (Inr False, w') | (Inr _, w') \<Rightarrow> (Inr True, w'))"

definition isSymlink :: "env \<Rightarrow> ppath \<Rightarrow> bool io" where
  "isSymlink E p w =
     (case lstat E p w of (Inl _, w') \<Rightarrow> (Inr False, w') | (Inr k, w') \<Rightarrow> (Inr (k = IsLink), w'))"

definition normalizeForCompare :: "env \<Rightarrow> ppath \<Rightarrow> ppath" where
  "normalizeForCompare E p =
     (let n = path_resolve (cwd E) (PPath None []) p
      in if isWin E then toLowerCase (lower E) n else n)"

text \<open>
  \<^verbatim>\<open>verifyLinkPointsTo\<close> catches both of its calls, so it always returns. The text
  of a stored link is never empty, so \<^verbatim>\<open>!raw\<close> holds exactly when
  \<^verbatim>\<open>readlink\<close> failed.
\<close>

definition verifyLinkPointsTo :: "env \<Rightarrow> ppath \<Rightarrow> ppath \<Rightarrow> bool io" where
  "verifyLinkPointsTo E linkPath wantTarget w =
     (case lstat E linkPath w of
        (Inl _, w1) \<Rightarrow> (Inr False, w1)
      | (Inr st, w1) \<Rightarrow>
          if st \<noteq> IsLink then (Inr False, w1)
          else (case readlink E linkPath w1 of
                  (Inl _, w2) \<Rightarrow> (Inr False, w2)
                | (Inr raw, w2) \<Rightarrow>
                    (let resolved = path_resolve (cwd E) (path_dirname linkPath) raw
                     in (Inr (normalizeForCompare E resolved = normalizeForCompare E wantTarget),
                         w2))))"

fun decimal :: "nat \<Rightarrow> string" where
  "decimal n =
     (if n < 10 then [hexdigit n] else decimal (n div 10) @ [hexdigit (n mod 10)])"

declare decimal.simps [simp del]

definition tmpRoot :: "env \<Rightarrow> ppath" where
  "tmpRoot E = path_join (tmpdir E) [''nlp-preflight-'' @ decimal (now E)]"

definition tmpTarget :: "env \<Rightarrow> ppath" where
  "tmpTarget E = path_join (tmpRoot E) [''tgt'']"

definition tmpLink :: "env \<Rightarrow> ppath" where
  "tmpLink E = path_join (tmpRoot E) [''lnk'']"

text \<open>The \<^verbatim>\<open>try\<close> block, then \<^verbatim>\<open>finally\<close>; a failure of the block is \<open>False\<close>.\<close>

definition windowsJunctionPreflight :: "env \<Rightarrow> bool io" where
  "windowsJunctionPreflight E w =
     (case bind (mkdir E (tmpTarget E))
             (\<lambda>_. bind (symlink E (tmpTarget E) (tmpLink E) Junction)
             (\<lambda>_. verifyLinkPointsTo E (tmpLink E) (tmpTarget E))) w of
        (r, w1) \<Rightarrow>
          (case bind (attempt (rm E (tmpLink E)))
                  (\<lambda>_. bind (attempt (rm E (tmpTarget E)))
                  (\<lambda>_. attempt (rm E (tmpRoot E)))) w1 of
             (_, w2) \<Rightarrow> (Inr (case r of Inl _ \<Rightarrow> False | Inr ok \<Rightarrow> ok), w2)))"

definition runNpmInstall :: "env \<Rightarrow> unit io" where
  "runNpmInstall E w =
     (let w1 = w\<lparr>trace := trace w @ [Print Installing, Spawn]\<rparr>;
          r = npm E (fs w1);
          w2 = w1\<lparr>fs := snd r\<rparr>
      in if fst r = Some 0 then (Inr (), w2) else (Inl (InstallerFailure (fst r)), w2))"

text \<open>The blocks of \<^verbatim>\<open>main\<close>, in the order of the source.\<close>

text \<open>Lines 137 to 145: the slot is a link already.\<close>

definition main_confirm :: "env \<Rightarrow> unit io" where
  "main_confirm E =
     bind (verifyLinkPointsTo E (nmPath E) (target E))
       (\<lambda>ok. if \<not> ok then throw (LinkMismatch (target E))
             else console_log (AlreadyLinked (target E)))"

text \<open>Lines 147 to 153: install when the cache is missing or empty.\<close>

definition main_install_linked :: "env \<Rightarrow> unit io" where
  "main_install_linked E =
     bind (exists E (target E))
       (\<lambda>cacheExists. bind (if cacheExists then readdir E (target E) else return [])
       (\<lambda>files. if \<not> cacheExists \<or> length files = 0 then runNpmInstall E else return ()))"

text \<open>Lines 157 to 166: move a real folder to the cache, clear the slot.\<close>

definition main_relocate :: "env \<Rightarrow> unit io" where
  "main_relocate E =
     bind (bind (exists E (nmPath E))
             (\<lambda>e. if e then bind (isSymlink E (nmPath E)) (\<lambda>l. return (\<not> l)) else return False))
       (\<lambda>real. bind (if real then
                       bind (mkdir E (target E))
                         (\<lambda>_. bind (rename E (nmPath E) (target E))
                         (\<lambda>_. console_log (Moved (target E))))
                     else mkdir E (target E))
       (\<lambda>_. attempt (rm E (nmPath E))))"

text \<open>Lines 169 to 183: the junction preflight of Windows.\<close>

definition main_preflight :: "env \<Rightarrow> unit io" where
  "main_preflight E =
     (if isWin E then
        bind (windowsJunctionPreflight E) (\<lambda>ok. if \<not> ok then throw LinkUnsupported else return ())
      else return ())"

definition linkType :: "env \<Rightarrow> linktype" where
  "linkType E = (if isWin E then Junction else DirLink)"

text \<open>Lines 186 to 221: create the link, read it back, remove it if it is wrong.\<close>

definition main_establish :: "env \<Rightarrow> unit io" where
  "main_establish E =
     bind (\<lambda>w. case symlink E (target E) (nmPath E) (linkType E) w of
                 (Inl _, w') \<Rightarrow>
                   (Inl (LinkCreationFailed (Symlink (target E) (nmPath E) (linkType E))), w')
               | (Inr u, w') \<Rightarrow> (Inr u, w'))
       (\<lambda>_. bind (verifyLinkPointsTo E (nmPath E) (target E))
       (\<lambda>linkedOk.
          if \<not> linkedOk then
            bind (attempt (rm E (nmPath E))) (\<lambda>_. throw (LinkVerificationFailed (target E)))
          else console_log (Linked (target E) (linkType E))))"

text \<open>Lines 224 to 229: install when the cache is empty.\<close>

definition main_install_fresh :: "env \<Rightarrow> unit io" where
  "main_install_fresh E =
     bind (readdir E (target E))
       (\<lambda>files. if length files = 0 then runNpmInstall E else console_log AlreadyCached)"

definition main :: "env \<Rightarrow> unit io" where
  "main E =
     bind (mkdir E (storeDir E))
       (\<lambda>_. bind (isSymlink E (nmPath E))
       (\<lambda>l. if l then bind (main_confirm E) (\<lambda>_. main_install_linked E)
            else bind (main_relocate E)
                   (\<lambda>_. bind (main_preflight E)
                   (\<lambda>_. bind (main_establish E)
                   (\<lambda>_. main_install_fresh E)))))"

text \<open>
  The module from top to bottom: the help flag exits with 0 before anything else;
  a rejected \<^verbatim>\<open>main\<close> prints its message and exits with 1; otherwise the process
  ends with 0.
\<close>

definition run :: "env \<Rightarrow> world \<Rightarrow> int \<times> world" where
  "run E w =
     (if ''--help'' \<in> set (argv E) \<or> ''-h'' \<in> set (argv E) then
        (0, w\<lparr>trace := trace w @ [Print HelpText]\<rparr>)
      else (case main E w of
              (Inl e, w') \<Rightarrow> (1, w'\<lparr>trace := trace w' @ [PrintError e]\<rparr>)
            | (Inr _, w') \<Rightarrow> (0, w')))"

subsection \<open>Notions used in the statements\<close>

text \<open>A segment that normalisation keeps as it is.\<close>

definition plain :: "string \<Rightarrow> bool" where
  "plain s = (s \<noteq> [] \<and> s \<noteq> ''.'' \<and> s \<noteq> ''..'')"

text \<open>Two locations neither of which lies on the way to the other.\<close>

definition apart :: "string list \<Rightarrow> string list \<Rightarrow> bool" where
  "apart p q = (\<not> prefix p q \<and> \<not> prefix q p)"




text \<open>
  The comparison at the end of \<^verbatim>\<open>verifyLinkPointsTo\<close>: the text \<open>raw\<close> stored in
  the link at \<open>linkPath\<close> names \<open>wantTarget\<close>.
\<close>

definition resolves_to :: "env \<Rightarrow> ppath \<Rightarrow> ppath \<Rightarrow> ppath \<Rightarrow> bool" where
  "resolves_to E linkPath raw wantTarget =
     (normalizeForCompare E (path_resolve (cwd E) (path_dirname linkPath) raw)
        = normalizeForCompare E wantTarget)"

text \<open>What \<^verbatim>\<open>verifyLinkPointsTo\<close> answers on the tree \<open>t\<close>.\<close>

definition link_ok :: "env \<Rightarrow> node \<Rightarrow> ppath \<Rightarrow> ppath \<Rightarrow> bool" where
  "link_ok E t linkPath wantTarget =
     (Lstat linkPath \<notin> set (faults E) \<and> Readlink linkPath \<notin> set (faults E) \<and>
      (case lookup t (key E linkPath) of
         Some (Link raw) \<Rightarrow> resolves_to E linkPath raw wantTarget
       | _ \<Rightarrow> False))"

text \<open>The number of times the installer has been started.\<close>

definition spawns :: "world \<Rightarrow> nat" where
  "spawns w = count_list (trace w) Spawn"

text \<open>A computation that never starts the installer.\<close>

definition quiet :: "'a io \<Rightarrow> bool" where
  "quiet m = (\<forall>w. spawns (snd (m w)) = spawns w)"


text \<open>A computation that leaves the location \<open>q\<close>, and all below it, as it is.\<close>

definition keeps :: "string list \<Rightarrow> 'a io \<Rightarrow> bool" where
  "keeps q m = (\<forall>w. lookup (fs (snd (m w))) q = lookup (fs w) q)"

text \<open>A computation all of whose errors satisfy \<open>P\<close>.\<close>

definition raises :: "(error \<Rightarrow> bool) \<Rightarrow> 'a io \<Rightarrow> bool" where
  "raises P m = (\<forall>w e w'. m w = (Inl e, w') \<longrightarrow> P e)"

text \<open>An installer failure carries an exit code of the installer that is not 0.\<close>

definition from_installer :: "env \<Rightarrow> error \<Rightarrow> bool" where
  "from_installer E e =
     (\<forall>c. e = InstallerFailure c \<longrightarrow> c \<noteq> Some 0 \<and> (\<exists>t. fst (npm E t) = c))"

text \<open>
  \<^verbatim>\<open>main\<close> up to the point where the slot is known to be a link to the cache
  target (the messages of lines 145 and 221), without the install that follows:
  \<open>Confirmed\<close> for a link found in place, \<open>Established\<close> for a link just created.
\<close>

datatype origin = Confirmed | Established

definition main_resolve :: "env \<Rightarrow> origin io" where
  "main_resolve E =
     bind (mkdir E (storeDir E))
       (\<lambda>_. bind (isSymlink E (nmPath E))
       (\<lambda>l. if l then bind (main_confirm E) (\<lambda>_. return Confirmed)
            else bind (main_relocate E)
                   (\<lambda>_. bind (main_preflight E)
                   (\<lambda>_. bind (main_establish E)
                   (\<lambda>_. return Established)))))"

definition main_install :: "env \<Rightarrow> origin \<Rightarrow> unit io" where
  "main_install E k = (case k of Confirmed \<Rightarrow> main_install_linked E | Established \<Rightarrow> main_install_fresh E)"

subsection \<open>Sample surroundings\<close>

text \<open>
  A stand-in digest for the samples: one byte for the length of every segment of the
  path.
\<close>

definition sample_digest :: "ppath \<Rightarrow> 8 word list" where
  "sample_digest p = map (\<lambda>s. of_nat (length s)) (segs p)"

definition sample_env :: env where
  "sample_env =
     \<lparr>platform = Linux, argv = [], cwd = PPath (Some ''/'') [''work'', ''app''],
      homedir = PPath (Some ''/'') [''home'', ''u''], tmpdir = PPath (Some ''/'') [''tmp''],
      now = 0, localappdata = None, override = None, sha1 = sample_digest,
      lower = lower_ascii, faults = [],
      npm = (\<lambda>t. (Some 0, t))\<rparr>"

text \<open>A project without \<^verbatim>\<open>node_modules\<close>, and one whose slot is linked to a filled cache.\<close>

definition sample_tree :: node where
  "sample_tree =
     Dir [(''/'', Dir [(''work'', Dir [(''app'', Dir [(''package.json'', File ''{}'')])]),
                       (''home'', Dir [(''u'', Dir [])])])]"

text \<open>The cache target of the sample project.\<close>

definition sample_target :: ppath where
  "sample_target = PPath (Some ''/'') [''home'', ''u'', ''.cache'', ''node_modules_store'', ''0403'']"

definition sample_tree_linked :: node where
  "sample_tree_linked =
     Dir [(''/'', Dir [(''work'', Dir [(''app'', Dir [(''node_modules'', Link sample_target)])]),
                       (''home'', Dir [(''u'', Dir [(''.cache'', Dir [(''node_modules_store'',
                          Dir [(''0403'', Dir [(''left-pad'', Dir [])])])])])])])]"

definition sample_world :: world where
  "sample_world = \<lparr>fs = sample_tree, trace = []\<rparr>"

definition sample_world_linked :: world where
  "sample_world_linked = \<lparr>fs = sample_tree_linked, trace = []\<rparr>"

text \<open>A read of the cache target that the operating system refuses.\<close>

definition unreadable_env :: env where
  "unreadable_env = sample_env\<lparr>faults := [Readdir sample_target]\<rparr>"

text \<open>An installer that exits with 2.\<close>

definition failing_npm_env :: env where
  "failing_npm_env = sample_env\<lparr>npm := (\<lambda>t. (Some 2, t))\<rparr>"

text \<open>A slot linked to a cache target that is gone.\<close>

definition sample_tree_dangling :: node where
  "sample_tree_dangling =
     Dir [(''/'', Dir [(''work'', Dir [(''app'', Dir [(''node_modules'', Link sample_target)])]),
                       (''home'', Dir [(''u'', Dir [])])])]"

definition sample_world_dangling :: world where
  "sample_world_dangling = \<lparr>fs = sample_tree_dangling, trace = []\<rparr>"

text \<open>
  A slot linked to \<^verbatim>\<open>/data\<close>, with the cache root set to \<^verbatim>\<open>/data/cache\<close>.
\<close>

definition mismatch_env :: env where
  "mismatch_env = sample_env\<lparr>override := Some (PPath (Some ''/'') [''data'', ''cache''])\<rparr>"

definition mismatch_tree :: node where
  "mismatch_tree =
     Dir [(''/'', Dir [(''work'', Dir [(''app'', Dir [(''node_modules'',
                                                      Link (PPath (Some ''/'') [''data'']))])]),
                       (''data'', Dir [(''keep'', File ''x'')])])]"

definition mismatch_world :: world where
  "mismatch_world = \<lparr>fs = mismatch_tree, trace = []\<rparr>"

text \<open>A real \<^verbatim>\<open>node_modules\<close> next to a cache target that already has an entry.\<close>

definition occupied_tree :: node where
  "occupied_tree =
     Dir [(''/'', Dir [(''work'', Dir [(''app'', Dir [(''node_modules'',
                                                      Dir [(''left-pad'', Dir [])])])]),
                       (''home'', Dir [(''u'', Dir [(''.cache'', Dir [(''node_modules_store'',
                          Dir [(''0403'', Dir [(''old'', File ''x'')])])])])])])]"

definition occupied_world :: world where
  "occupied_world = \<lparr>fs = occupied_tree, trace = []\<rparr>"

text \<open>The slot of the sample project, and a system that refuses to read the link there.\<close>

definition sample_slot :: ppath where
  "sample_slot = PPath (Some ''/'') [''work'', ''app'', ''node_modules'']"

definition unverifiable_env :: env where
  "unverifiable_env = sample_env\<lparr>faults := [Readlink sample_slot]\<rparr>"




text \<open>An installer that puts one package into the cache target of the sample project.\<close>

definition writing_npm_env :: env where
  "writing_npm_env =
     sample_env\<lparr>npm := (\<lambda>t. (Some 0,
        put t [''/'', ''home'', ''u'', ''.cache'', ''node_modules_store'', ''0403'', ''left-pad'']
          (Dir [])))\<rparr>"

text \<open>A project whose \<^verbatim>\<open>node_modules\<close> is an empty directory, and one where it holds a package.\<close>

definition empty_dir_tree :: node where
  "empty_dir_tree =
     Dir [(''/'', Dir [(''work'', Dir [(''app'', Dir [(''node_modules'', Dir [])])]),
                       (''home'', Dir [(''u'', Dir [])])])]"

definition empty_dir_world :: world where
  "empty_dir_world = \<lparr>fs = empty_dir_tree, trace = []\<rparr>"

definition sample_tree_real :: node where
  "sample_tree_real =
     Dir [(''/'', Dir [(''work'', Dir [(''app'', Dir [(''node_modules'',
              Dir [(''left-pad'', Dir [(''index.js'', File ''module.exports = 1'')])])])]),
                       (''home'', Dir [(''u'', Dir [])])])]"

definition sample_world_real :: world where
  "sample_world_real = \<lparr>fs = sample_tree_real, trace = []\<rparr>"

section \<open>Properties\<close>

subsection \<open>The tree\<close>

lemma lookup_append:
  "lookup t (p @ q) = (case lookup t p of None \<Rightarrow> None | Some n \<Rightarrow> lookup n q)"
  by (induction t p rule: lookup.induct) (auto split: option.splits)


lemma mkdirp_other:
  "mkdirp t p = Some t' \<Longrightarrow> \<not> prefix q p \<Longrightarrow> lookup t' q = lookup t q"
proof (induction t p arbitrary: t' q rule: mkdirp.induct)
  case (1 es)
  then show ?case by simp
next
  case (2 es c cs)
  from 2(4) obtain d ds where q: "q = d # ds" by (cases q) auto
  show ?case
  proof (cases "map_of es c")
    case None
    with 2(3) obtain m where m: "mkdirp (Dir []) cs = Some m" and t': "t' = Dir (es @ [(c, m)])"
      by auto
    show ?thesis
    proof (cases "d = c")
      case True
      with 2(4) q have "\<not> prefix ds cs" by simp
      with 2(1) [OF None m] have "lookup m ds = lookup (Dir []) ds" by simp
      moreover have "lookup (Dir []) ds = None" using \<open>\<not> prefix ds cs\<close> by (cases ds) auto
      ultimately show ?thesis using None t' q True by (simp add: map_add_def)
    next
      case False
      then show ?thesis using None t' q by (simp add: map_add_def split: option.splits)
    qed
  next
    case (Some n)
    with 2(3) obtain m where m: "mkdirp n cs = Some m" and t': "t' = Dir (AList.update c m es)"
      by auto
    show ?thesis
    proof (cases "d = c")
      case True
      with 2(4) q have "\<not> prefix ds cs" by simp
      with 2(2) [OF Some m] have "lookup m ds = lookup n ds" by simp
      then show ?thesis using Some t' q True by (simp add: update_conv')
    next
      case False
      then show ?thesis using Some t' q by (simp add: update_conv')
    qed
  qed
qed simp_all

lemma mkdirp_preserve:
  "mkdirp t p = Some t' \<Longrightarrow> lookup t q = Some n \<Longrightarrow>
     \<exists>n'. lookup t' q = Some n' \<and> kind_of n' = kind_of n \<and> (kind_of n \<noteq> IsDir \<longrightarrow> n' = n)"
proof (induction t p arbitrary: t' q n rule: mkdirp.induct)
  case (1 es)
  then show ?case by simp
next
  case (2 es c cs)
  show ?case
  proof (cases q)
    case Nil
    with 2(3,4) show ?thesis by (auto split: option.splits)
  next
    case (Cons d ds)
    show ?thesis
    proof (cases "map_of es c")
      case None
      with 2(3) obtain m where m: "mkdirp (Dir []) cs = Some m" and t': "t' = Dir (es @ [(c, m)])"
        by auto
      from 2(4) Cons None have "d \<noteq> c" by (auto split: option.splits)
      then show ?thesis using 2(4) Cons None t' by (auto simp: map_add_def split: option.splits)
    next
      case (Some k)
      with 2(3) obtain m where m: "mkdirp k cs = Some m" and t': "t' = Dir (AList.update c m es)"
        by auto
      show ?thesis
      proof (cases "d = c")
        case True
        with 2(4) Cons Some have "lookup k ds = Some n" by simp
        from 2(2) [OF Some m this] show ?thesis using t' Cons True by (simp add: update_conv')
      next
        case False
        then show ?thesis using 2(4) Cons t' by (simp add: update_conv')
      qed
    qed
  qed
qed simp_all

lemma mkdirp_existing: "lookup t p = Some (Dir es) \<Longrightarrow> mkdirp t p = Some t"
proof (induction p arbitrary: t)
  case Nil
  then show ?case by simp
next
  case (Cons c cs)
  then show ?case by (cases t) (auto split: option.splits simp: AList.update_triv)
qed

lemma lookup_put_below:
  "parent_is_dir t p \<Longrightarrow> lookup (put t p v) (p @ r) = lookup v r"
proof (induction t p v rule: put.induct)
  case (3 es c d ds v)
  then show ?case
    by (auto simp: parent_is_dir_def update_conv' split: option.splits node.splits if_splits)
qed (auto simp: parent_is_dir_def update_conv' split: option.splits node.splits if_splits)

lemma lookup_put_other:
  "\<not> prefix p q \<Longrightarrow> \<not> prefix q p \<Longrightarrow> lookup (put t p v) q = lookup t q"
proof (induction t p v arbitrary: q rule: put.induct)
  case (1 n v)
  then show ?case by simp
next
  case (2 es c v)
  then show ?case by (cases q) (auto simp: update_conv')
next
  case (3 es c d ds v)
  then show ?case by (cases q) (auto simp: update_conv' split: option.splits)
qed simp_all

lemma lookup_del_below: "p \<noteq> [] \<Longrightarrow> lookup (del t p) (p @ r) = None"
proof (induction t p arbitrary: r rule: del.induct)
  case (2 es c)
  then show ?case by (simp add: delete_conv')
next
  case (3 es c d ds)
  then show ?case by (auto simp: update_conv' split: option.splits)
qed simp_all

lemma lookup_del_other:
  "\<not> prefix p q \<Longrightarrow> \<not> prefix q p \<Longrightarrow> lookup (del t p) q = lookup t q"
proof (induction t p arbitrary: q rule: del.induct)
  case (1 n)
  then show ?case by simp
next
  case (2 es c)
  then show ?case by (cases q) (auto simp: delete_conv')
next
  case (3 es c d ds)
  then show ?case by (cases q) (auto simp: update_conv' split: option.splits)
qed simp_all

lemma del_keeps_kind:
  "\<not> prefix p q \<Longrightarrow> lookup t q = Some n \<Longrightarrow>
     \<exists>n'. lookup (del t p) q = Some n' \<and> kind_of n' = kind_of n"
proof (induction t p arbitrary: q n rule: del.induct)
  case (1 n)
  then show ?case by simp
next
  case (2 es c)
  then show ?case by (cases q) (auto simp: delete_conv')
next
  case (3 es c d ds)
  then show ?case by (cases q) (auto simp: update_conv' split: option.splits)
qed simp_all

lemma del_absent: "lookup t p = None \<Longrightarrow> del t p = t"
proof (induction t p rule: del.induct)
  case (2 es c)
  then show ?case by (auto simp: map_of_eq_None_iff split: option.splits)
next
  case (3 es c d ds)
  then show ?case by (auto simp: AList.update_triv split: option.splits)
qed simp_all

lemma lookup_parent_nonempty:
  "lookup t (p @ c # r) = Some n \<Longrightarrow> \<exists>e es. lookup t p = Some (Dir (e # es))"
proof -
  assume h: "lookup t (p @ c # r) = Some n"
  then obtain m where m: "lookup t p = Some m" and l: "lookup m (c # r) = Some n"
    by (auto simp: lookup_append split: option.splits)
  from l obtain es where "m = Dir es" and "map_of es c \<noteq> None"
    by (cases m) (auto split: option.splits)
  then have "es \<noteq> []" by auto
  with \<open>m = Dir es\<close> m show ?thesis by (cases es) auto
qed

lemma parent_is_dir_del:
  assumes "parent_is_dir t dst" and "\<not> prefix src dst"
  shows "parent_is_dir (del t src) dst"
proof -
  from assms(1) obtain es where ne: "dst \<noteq> []" and d: "lookup t (butlast dst) = Some (Dir es)"
    by (auto simp: parent_is_dir_def split: option.splits node.splits)
  have "\<not> prefix src (butlast dst)"
    using assms(2) ne by (metis prefix_order.trans prefixeq_butlast)
  from del_keeps_kind [OF this d] obtain n' where
    "lookup (del t src) (butlast dst) = Some n'" and "kind_of n' = IsDir" by auto
  then show ?thesis using ne by (cases n') (auto simp: parent_is_dir_def)
qed

lemma rename_tree_moves:
  assumes "rename_tree win t src dst = Some t'" and "src \<noteq> dst" and "lookup t src = Some n"
  shows "lookup t' dst = Some n \<and> lookup t' src = None \<and> \<not> prefix src dst \<and> \<not> prefix dst src \<and>
         (\<forall>q. \<not> prefix src q \<and> \<not> prefix q src \<and> \<not> prefix dst q \<and> \<not> prefix q dst
               \<longrightarrow> lookup t' q = lookup t q)"
proof -
  from assms have np: "\<not> prefix src dst" and pd: "parent_is_dir t dst"
    by (auto simp: rename_tree_def split: if_splits)
  have nq: "\<not> prefix dst src"
  proof
    assume "prefix dst src"
    with assms(2) obtain c r where "src = dst @ c # r"
      by (metis prefixE list.exhaust append_Nil2)
    with assms(3) obtain e es where "lookup t dst = Some (Dir (e # es))"
      using lookup_parent_nonempty by blast
    with assms np pd show False by (simp add: rename_tree_def)
  qed
  from assms np pd have t': "t' = put (del t src) dst n"
    by (auto simp: rename_tree_def split: option.splits node.splits if_splits)
  have pd': "parent_is_dir (del t src) dst" using pd np by (rule parent_is_dir_del)
  have a: "lookup t' dst = Some n"
    using lookup_put_below [OF pd', of n "[]"] t' by simp
  have srcne: "src \<noteq> []" using np by auto
  have b: "lookup t' src = None"
    using lookup_put_other [OF nq np] lookup_del_below [OF srcne, of t "[]"] t' by simp
  have c: "lookup t' q = lookup t q"
    if "\<not> prefix src q \<and> \<not> prefix q src \<and> \<not> prefix dst q \<and> \<not> prefix q dst" for q
    using that t' by (simp add: lookup_put_other lookup_del_other)
  from a b np nq c show ?thesis by blast
qed

lemma rename_tree_nonempty:
  "lookup t dst = Some (Dir (e # es)) \<Longrightarrow> src \<noteq> dst \<Longrightarrow> rename_tree win t src dst = None"
  by (simp add: rename_tree_def split: option.splits)

subsection \<open>Digests and the cache target\<close>

lemma hexdigit_table:
  "\<forall>n\<in>set [0..<16]. \<forall>m\<in>set [0..<16]. hexdigit n = hexdigit m \<longrightarrow> n = m"
  by code_simp

lemma hexdigit_inj: "n < 16 \<Longrightarrow> m < 16 \<Longrightarrow> hexdigit n = hexdigit m \<Longrightarrow> n = m"
  using hexdigit_table by simp

lemma hexdigit_plain_table:
  "\<forall>n\<in>set [0..<16]. hexdigit n \<noteq> CHR ''.''"
  by code_simp

lemma hexdigit_plain: "CHR ''.'' \<noteq> hexdigit n"
proof -
  have "n mod 16 \<in> set [0..<16]" by simp
  then have "hexdigit (n mod 16) \<noteq> CHR ''.''" using hexdigit_plain_table by blast
  then show ?thesis by (auto simp add: hexdigit_def)
qed

lemma hexbyte_inj: "hexbyte a = hexbyte b \<Longrightarrow> a = b"
proof -
  assume h: "hexbyte a = hexbyte b"
  have la: "unat a < 256" and lb: "unat b < 256"
    using unsigned_less [of a, where ?'a = nat] unsigned_less [of b, where ?'a = nat] by simp_all
  from h have "hexdigit (unat a div 16) = hexdigit (unat b div 16)"
    and "hexdigit (unat a mod 16) = hexdigit (unat b mod 16)"
    by (simp_all add: hexbyte_def)
  moreover have "unat a div 16 < 16" "unat b div 16 < 16" using la lb by simp_all
  moreover have "unat a mod 16 < 16" "unat b mod 16 < 16" by simp_all
  ultimately have "unat a div 16 = unat b div 16" "unat a mod 16 = unat b mod 16"
    by (blast dest: hexdigit_inj)+
  then have "unat a = unat b"
    by (metis div_mult_mod_eq)
  then show ?thesis by (simp add: word_unat_eq_iff)
qed

lemma hex_inj: "hex a = hex b \<Longrightarrow> a = b"
proof (induction a arbitrary: b)
  case Nil
  then show ?case by (cases b) (simp_all add: hex_def hexbyte_def)
next
  case (Cons x xs)
  then show ?case
  proof (cases b)
    case Nil
    with Cons.prems show ?thesis by (simp add: hex_def hexbyte_def)
  next
    case (Cons y ys)
    with Cons.prems have "hexbyte x @ hex xs = hexbyte y @ hex ys" by (simp add: hex_def)
    moreover have "length (hexbyte x) = length (hexbyte y)" by (simp add: hexbyte_def)
    ultimately have "hexbyte x = hexbyte y" "hex xs = hex ys" by simp_all
    with Cons.IH Cons show ?thesis by (simp add: hexbyte_inj)
  qed
qed

lemma hex_no_dot: "CHR ''.'' \<notin> set (hex d)"
  by (induction d) (simp_all add: hex_def hexbyte_def hexdigit_plain)

lemma hex_empty: "hex d = [] \<longleftrightarrow> d = []"
  by (cases d) (simp_all add: hex_def hexbyte_def)

lemma normalizeStep_hex:
  "normalizeStep a res (hex d) = (if d = [] then res else res @ [hex d])"
proof -
  have "hex d \<noteq> ''.''" "hex d \<noteq> ''..''"
    using hex_no_dot [of d] by (metis list.set_intros(1))+
  then show ?thesis by (simp add: normalizeStep_def hex_empty)
qed

lemma path_join_hex:
  "path_join S [hex d] =
     PPath (root S) (normalizeString (root S = None) (segs S) @ (if d = [] then [] else [hex d]))"
  by (simp add: path_join_def path_normalize_def normalizeString_def normalizeStep_hex)

lemma path_join_hex_inj: "path_join S [hex a] = path_join S [hex b] \<Longrightarrow> a = b"
  by (auto simp: path_join_hex hex_inj split: if_splits)


text \<open>
  C9. The cache target is computed from the platform, the override, the home
  directory, \<^verbatim>\<open>LOCALAPPDATA\<close>, the digest function and the project path alone: two
  computations that agree on these give the same target, and two project paths with
  different SHA-1 digests give different targets.
\<close>

theorem target_deterministic_and_distinct:
  assumes "platform E1 = platform E2" and "override E1 = override E2"
    and "homedir E1 = homedir E2" and "localappdata E1 = localappdata E2"
    and "sha1 E1 = sha1 E2"
  shows "(cwd E1 = cwd E2 \<longrightarrow> target E1 = target E2) \<and>
         (sha1 E1 (cwd E1) \<noteq> sha1 E2 (cwd E2) \<longrightarrow> target E1 \<noteq> target E2)"
proof -
  from assms have "defaultStoreDir E1 = defaultStoreDir E2"
    by (simp add: defaultStoreDir_def isWin_def split: option.splits)
  with assms have store: "storeDir E1 = storeDir E2"
    by (simp add: storeDir_def split: option.splits)
  have same: "target E1 = target E2" if "cwd E1 = cwd E2"
    using that store assms(5) by (simp add: target_def hash_def projectDir_def)
  have differ: "target E1 \<noteq> target E2" if "sha1 E1 (cwd E1) \<noteq> sha1 E2 (cwd E2)"
  proof
    assume "target E1 = target E2"
    with store have "path_join (storeDir E1) [hex (sha1 E1 (cwd E1))] =
        path_join (storeDir E1) [hex (sha1 E2 (cwd E2))]"
      by (simp add: target_def hash_def projectDir_def)
    then have "sha1 E1 (cwd E1) = sha1 E2 (cwd E2)" by (rule path_join_hex_inj)
    with that show False by contradiction
  qed
  from same differ show ?thesis by blast
qed

theorem target_deterministic_and_distinct_witness:
  "target (sample_env\<lparr>now := 7, argv := [''x'']\<rparr>) = target sample_env \<and>
   sha1 sample_env (cwd sample_env) \<noteq> sample_digest (PPath (Some ''/'') [''work'', ''other'']) \<and>
   target sample_env \<noteq> target (sample_env\<lparr>cwd := PPath (Some ''/'') [''work'', ''other'']\<rparr>)"
proof -
  have a: "target (sample_env\<lparr>now := 7, argv := [''x'']\<rparr>) = target sample_env"
    using target_deterministic_and_distinct
      [of "sample_env\<lparr>now := 7, argv := [''x'']\<rparr>" sample_env]
    by simp
  have d: "sha1 sample_env (cwd sample_env)
      \<noteq> sample_digest (PPath (Some ''/'') [''work'', ''other''])"
    by (simp add: sample_env_def sample_digest_def)
  have b: "target sample_env \<noteq> target (sample_env\<lparr>cwd := PPath (Some ''/'') [''work'', ''other'']\<rparr>)"
    using d target_deterministic_and_distinct
      [of sample_env "sample_env\<lparr>cwd := PPath (Some ''/'') [''work'', ''other'']\<rparr>"]
    by (simp add: sample_env_def)
  from a d b show ?thesis by blast
qed

subsection \<open>Locations of the paths of the script\<close>

lemma normalizeString_snoc:
  "normalizeString a (xs @ [s]) = normalizeStep a (normalizeString a xs) s"
  by (simp add: normalizeString_def)

lemma normalizeString_append:
  "normalizeString a (xs @ ys) = foldl (normalizeStep a) (normalizeString a xs) ys"
  by (simp add: normalizeString_def)

lemma normalizeStep_plain: "plain s \<Longrightarrow> normalizeStep a res s = res @ [s]"
  by (simp add: normalizeStep_def plain_def)

lemma normalizeStep_clean:
  "\<forall>s\<in>set res. s \<noteq> [] \<and> s \<noteq> ''.'' \<Longrightarrow>
     \<forall>s\<in>set (normalizeStep a res x). s \<noteq> [] \<and> s \<noteq> ''.''"
  by (auto simp: normalizeStep_def dest: in_set_butlastD)

lemma normalizeString_clean: "\<forall>s\<in>set (normalizeString a xs). s \<noteq> [] \<and> s \<noteq> ''.''"
proof (induction xs rule: rev_induct)
  case Nil
  then show ?case by (simp add: normalizeString_def)
next
  case (snoc x xs)
  from normalizeStep_clean [OF snoc.IH, of a x] show ?case
    by (simp only: normalizeString_snoc)
qed

lemma normalizeString_no_dotdot: "''..'' \<notin> set (normalizeString False xs)"
proof (induction xs rule: rev_induct)
  case Nil
  then show ?case by (simp add: normalizeString_def)
next
  case (snoc x xs)
  then show ?case
    by (auto simp: normalizeString_snoc normalizeStep_def dest: in_set_butlastD)
qed

lemma foldl_normalizeStep_plain:
  "\<forall>s\<in>set ys. plain s \<Longrightarrow> foldl (normalizeStep a) acc ys = acc @ ys"
  by (induction ys arbitrary: acc) (simp_all add: normalizeStep_plain)

lemma normalizeString_idem:
  "normalizeString False (normalizeString False xs) = normalizeString False xs"
proof -
  have "\<forall>s\<in>set (normalizeString False xs). plain s"
    using normalizeString_clean [of False xs] normalizeString_no_dotdot [of xs]
    by (auto simp: plain_def)
  then have "foldl (normalizeStep False) [] (normalizeString False xs) = [] @ normalizeString False xs"
    by (rule foldl_normalizeStep_plain)
  then show ?thesis by (simp add: normalizeString_def)
qed

lemma foldl_normalizeStep_normalized:
  "foldl (normalizeStep a) acc (normalizeString True ys) = foldl (normalizeStep a) acc ys"
proof (induction ys rule: rev_induct)
  case Nil
  then show ?case by (simp add: normalizeString_def)
next
  case (snoc y zs)
  let ?N = "normalizeString True zs"
  have clean: "\<forall>s\<in>set ?N. s \<noteq> [] \<and> s \<noteq> ''.''" by (rule normalizeString_clean)
  show ?case
  proof (cases "y = ''..'' \<and> ?N \<noteq> [] \<and> last ?N \<noteq> ''..''")
    case True
    then obtain ws s where N: "?N = ws @ [s]" and s: "s \<noteq> ''..''"
      by (metis append_butlast_last_id)
    with clean have ps: "plain s" by (auto simp: plain_def)
    have "foldl (normalizeStep a) acc (normalizeString True (zs @ [y])) =
        foldl (normalizeStep a) acc ws"
      using True N by (simp add: normalizeString_snoc normalizeStep_def)
    moreover have "foldl (normalizeStep a) acc (zs @ [y]) =
        normalizeStep a (foldl (normalizeStep a) acc ws @ [s]) ''..''"
      using snoc.IH N True ps by (simp add: normalizeStep_plain)
    moreover have "normalizeStep a (foldl (normalizeStep a) acc ws @ [s]) ''..'' =
        foldl (normalizeStep a) acc ws"
      using s by (simp add: normalizeStep_def)
    ultimately show ?thesis by simp
  next
    case False
    then have "normalizeStep True ?N y = (if y = [] \<or> y = ''.'' then ?N else ?N @ [y])"
      by (auto simp: normalizeStep_def)
    then show ?thesis
      using snoc.IH by (auto simp: normalizeString_snoc normalizeStep_def)
  qed
qed

lemma key_path_join:
  "key E (path_join p ss) =
     (case root p of
        Some r \<Rightarrow> r # normalizeString False (segs p @ ss)
      | None \<Rightarrow> (case root (cwd E) of None \<Rightarrow> [] | Some d \<Rightarrow> [d])
                 @ normalizeString (root (cwd E) = None) (segs (cwd E) @ segs p @ ss))"
proof (cases "root p")
  case None
  then show ?thesis
    using foldl_normalizeStep_normalized
      [of "root (cwd E) = None" "normalizeString (root (cwd E) = None) (segs (cwd E))" "segs p @ ss"]
    by (simp add: key_def path_join_def path_resolve_def path_normalize_def
        normalizeString_append [symmetric] split: option.splits)
next
  case (Some r)
  then show ?thesis
    by (simp add: key_def path_join_def path_resolve_def path_normalize_def normalizeString_idem)
qed

lemma key_plain:
  "key E p =
     (case root p of
        Some r \<Rightarrow> r # normalizeString False (segs p)
      | None \<Rightarrow> (case root (cwd E) of None \<Rightarrow> [] | Some d \<Rightarrow> [d])
                 @ normalizeString (root (cwd E) = None) (segs (cwd E) @ segs p))"
  by (simp add: key_def path_resolve_def path_normalize_def split: option.splits)

lemma key_path_join_snoc: "plain s \<Longrightarrow> key E (path_join p [s]) = key E p @ [s]"
proof -
  assume ps: "plain s"
  have "normalizeString a (xs @ [s]) = normalizeString a xs @ [s]" for a xs
    using ps by (simp add: normalizeString_snoc normalizeStep_plain)
  from this [of _ "segs p"] this [of _ "segs (cwd E) @ segs p"]
  show ?thesis
    unfolding key_path_join key_plain [of E p]
    by (cases "root p"; cases "root (cwd E)") simp_all
qed

lemma key_path_join_empty: "key E (path_join p [[]]) = key E p"
proof -
  have "normalizeString a (xs @ [[]]) = normalizeString a xs" for a xs
    by (simp add: normalizeString_snoc normalizeStep_def)
  from this [of _ "segs p"] this [of _ "segs (cwd E) @ segs p"]
  show ?thesis
    unfolding key_path_join key_plain [of E p]
    by (cases "root p"; cases "root (cwd E)") simp_all
qed

lemma plain_hex: "d \<noteq> [] \<Longrightarrow> plain (hex d)"
  using hex_no_dot [of d] by (auto simp: plain_def hex_empty)

lemma key_target:
  "key E (target E) =
     key E (storeDir E) @ (if sha1 E (cwd E) = [] then [] else [hash E])"
  by (simp add: target_def hash_def projectDir_def key_path_join_snoc plain_hex
      key_path_join_empty hex_empty [THEN iffD2])

lemma key_nmPath: "key E (nmPath E) = key E (cwd E) @ [''node_modules'']"
  by (simp add: nmPath_def projectDir_def key_path_join_snoc plain_def)

lemma hexdigit_not_n: "hexdigit k \<noteq> CHR ''n''"
proof -
  have "\<forall>n\<in>set [0..<16]. hexdigit n \<noteq> CHR ''n''" by code_simp
  moreover have "k mod 16 \<in> set [0..<16]" by simp
  ultimately have "hexdigit (k mod 16) \<noteq> CHR ''n''" by blast
  then show ?thesis by (simp add: hexdigit_def)
qed

lemma hash_not_node_modules: "hash E \<noteq> ''node_modules''"
proof
  assume "hash E = ''node_modules''"
  then have "CHR ''n'' \<in> set (hex (sha1 E (cwd E)))" by (simp add: hash_def projectDir_def)
  then obtain b where "CHR ''n'' \<in> set (hexbyte b)" by (auto simp: hex_def)
  then have "CHR ''n'' = hexdigit (unat b div 16) \<or> CHR ''n'' = hexdigit (unat b mod 16)"
    by (auto simp: hexbyte_def)
  then show False using hexdigit_not_n by metis
qed

subsection \<open>Sequencing, and never starting the installer\<close>

lemma bind_Inr: "m w = (Inr x, w1) \<Longrightarrow> bind m f w = f x w1"
  by (simp add: bind_def)

lemma bind_InrE:
  assumes "bind m f w = (Inr y, w')"
  obtains x w1 where "m w = (Inr x, w1)" and "f x w1 = (Inr y, w')"
  using assms by (auto simp: bind_def split: prod.splits sum.splits)

lemma bind_assoc: "bind (bind m f) g = bind m (\<lambda>x. bind (f x) g)"
  by (rule ext) (simp add: bind_def split: prod.splits sum.splits)

lemma bind_if: "bind (if c then m else n) f = (if c then bind m f else bind n f)"
  by simp

lemma bind_return: "bind (return x) f = f x"
  by (rule ext) (simp add: bind_def return_def)

lemma main_resolve_install: "main E = bind (main_resolve E) (main_install E)"
  by (simp add: main_def main_resolve_def bind_assoc bind_if bind_return main_install_def
      cong: if_cong)

text \<open>Never starting the installer.\<close>

lemma quiet_bind: "quiet m \<Longrightarrow> (\<And>x. quiet (f x)) \<Longrightarrow> quiet (bind m f)"
  by (auto simp: quiet_def bind_def split: prod.splits sum.splits) (metis snd_conv)+

lemma quiet_return: "quiet (return x)"
  by (simp add: quiet_def return_def)

lemma quiet_throw: "quiet (throw e)"
  by (simp add: quiet_def throw_def)

lemma quiet_attempt: "quiet m \<Longrightarrow> quiet (attempt m)"
  by (auto simp: quiet_def attempt_def split: prod.splits) (metis snd_conv)

lemma quiet_console_log: "quiet (console_log m)"
  by (simp add: quiet_def console_log_def spawns_def)

lemma quiet_syscall_io: "quiet (syscall_io E c f)"
  by (simp add: quiet_def syscall_io_def spawns_def Let_def split: option.splits)

lemma quiet_calls:
  "quiet (lstat E p)" "quiet (readlink E p)" "quiet (readdir E p)" "quiet (mkdir E p)"
  "quiet (rename E p q)" "quiet (rm E p)" "quiet (symlink E p q ty)"
  by (simp_all add: lstat_def readlink_def readdir_def mkdir_def rename_def rm_def symlink_def
      quiet_syscall_io)

lemma quiet_exists: "quiet (exists E p)"
  using quiet_calls(1) [of E p]
  by (auto simp: quiet_def exists_def split: prod.splits sum.splits) (metis snd_conv)+

lemma quiet_isSymlink: "quiet (isSymlink E p)"
  using quiet_calls(1) [of E p]
  by (auto simp: quiet_def isSymlink_def split: prod.splits sum.splits) (metis snd_conv)+

lemma quiet_verifyLinkPointsTo: "quiet (verifyLinkPointsTo E p q)"
proof -
  have "spawns (snd (verifyLinkPointsTo E p q w)) = spawns w" for w
  proof -
    obtain r1 w1 where l: "lstat E p w = (r1, w1)" by (cases "lstat E p w")
    obtain r2 w2 where r: "readlink E p w1 = (r2, w2)" by (cases "readlink E p w1")
    from l quiet_calls(1) [of E p] have s1: "spawns w1 = spawns w"
      by (metis quiet_def snd_conv)
    from r quiet_calls(2) [of E p] have s2: "spawns w2 = spawns w1"
      by (metis quiet_def snd_conv)
    show ?thesis
      using l r s1 s2 by (auto simp: verifyLinkPointsTo_def Let_def split: sum.splits)
  qed
  then show ?thesis by (simp add: quiet_def)
qed

lemma quiet_windowsJunctionPreflight: "quiet (windowsJunctionPreflight E)"
proof -
  let ?body = "bind (mkdir E (tmpTarget E))
             (\<lambda>_. bind (symlink E (tmpTarget E) (tmpLink E) Junction)
             (\<lambda>_. verifyLinkPointsTo E (tmpLink E) (tmpTarget E)))"
  let ?fin = "bind (attempt (rm E (tmpLink E)))
                  (\<lambda>_. bind (attempt (rm E (tmpTarget E)))
                  (\<lambda>_. attempt (rm E (tmpRoot E))))"
  have b: "quiet ?body"
    by (intro quiet_bind quiet_calls quiet_verifyLinkPointsTo)
  have f: "quiet ?fin"
    by (intro quiet_bind quiet_attempt quiet_calls)
  have "spawns (snd (windowsJunctionPreflight E w)) = spawns w" for w
  proof -
    obtain r w1 where 1: "?body w = (r, w1)" by (cases "?body w")
    obtain r' w2 where 2: "?fin w1 = (r', w2)" by (cases "?fin w1")
    from b 1 have "spawns w1 = spawns w" by (metis quiet_def snd_conv)
    moreover from f 2 have "spawns w2 = spawns w1" by (metis quiet_def snd_conv)
    ultimately show ?thesis using 1 2 by (simp add: windowsJunctionPreflight_def)
  qed
  then show ?thesis by (simp add: quiet_def)
qed

lemma quiet_main_confirm: "quiet (main_confirm E)"
  unfolding main_confirm_def
  by (intro quiet_bind quiet_verifyLinkPointsTo) (simp add: quiet_throw quiet_console_log)

lemma quiet_main_relocate: "quiet (main_relocate E)"
  unfolding main_relocate_def
  by (intro quiet_bind quiet_exists quiet_attempt quiet_calls)
     (simp_all add: quiet_bind quiet_isSymlink quiet_return quiet_calls quiet_console_log)

lemma quiet_main_preflight: "quiet (main_preflight E)"
  unfolding main_preflight_def
  by (simp add: quiet_bind quiet_windowsJunctionPreflight quiet_throw quiet_return)

lemma quiet_main_establish: "quiet (main_establish E)"
proof -
  have "quiet (\<lambda>w. case symlink E (target E) (nmPath E) (linkType E) w of
                 (Inl _, w') \<Rightarrow>
                   (Inl (LinkCreationFailed (Symlink (target E) (nmPath E) (linkType E))), w')
               | (Inr u, w') \<Rightarrow> (Inr u, w'))"
    using quiet_calls(7) [of E "target E" "nmPath E" "linkType E"]
    by (auto simp: quiet_def split: prod.splits sum.splits) (metis snd_conv)+
  then show ?thesis
    unfolding main_establish_def
    by (intro quiet_bind quiet_verifyLinkPointsTo)
       (simp_all add: quiet_bind quiet_attempt quiet_calls quiet_throw quiet_console_log)
qed

lemma quiet_main_resolve: "quiet (main_resolve E)"
  unfolding main_resolve_def
  by (intro quiet_bind quiet_calls quiet_isSymlink)
     (simp add: quiet_bind quiet_main_confirm quiet_main_relocate quiet_main_preflight
        quiet_main_establish quiet_return)

lemma spawns_runNpmInstall: "spawns (snd (runNpmInstall E w)) = Suc (spawns w)"
  by (simp add: runNpmInstall_def spawns_def Let_def)

subsection \<open>The calls and the emptiness checks, step by step\<close>

lemmas script_defs =
  run_def main_def main_resolve_def main_install_def main_confirm_def main_install_linked_def
  main_relocate_def main_preflight_def main_establish_def main_install_fresh_def
  runNpmInstall_def windowsJunctionPreflight_def verifyLinkPointsTo_def exists_def isSymlink_def
  normalizeForCompare_def linkType_def isWin_def target_def hash_def storeDir_def
  defaultStoreDir_def nmPath_def projectDir_def tmpRoot_def tmpTarget_def tmpLink_def
  bind_def return_def throw_def attempt_def console_log_def
  lstat_def readlink_def readdir_def mkdir_def rename_def rm_def symlink_def syscall_io_def
  key_def rename_tree_def parent_is_dir_def
  path_join_def path_resolve_def path_dirname_def path_normalize_def normalizeString_def
  normalizeStep_def toLowerCase_def lower_ascii_def lower_char_def hex_def hexbyte_def hexdigit_def
  spawns_def

lemma lstat_eq:
  "lstat E p w =
     ((if Lstat p \<in> set (faults E) then Inl (IOError (Lstat p))
       else case lookup (fs w) (key E p) of
              None \<Rightarrow> Inl (IOError (Lstat p))
            | Some n \<Rightarrow> Inr (kind_of n)),
      w\<lparr>trace := trace w @ [Call (Lstat p)]\<rparr>)"
  by (simp add: lstat_def syscall_io_def Let_def split: option.splits)

lemma exists_eq:
  "exists E p w =
     (Inr (Lstat p \<notin> set (faults E) \<and> lookup (fs w) (key E p) \<noteq> None),
      w\<lparr>trace := trace w @ [Call (Lstat p)]\<rparr>)"
  by (auto simp: exists_def lstat_eq split: option.splits)

lemma isSymlink_eq:
  "isSymlink E p w =
     (Inr (Lstat p \<notin> set (faults E) \<and>
           (case lookup (fs w) (key E p) of Some n \<Rightarrow> kind_of n = IsLink | None \<Rightarrow> False)),
      w\<lparr>trace := trace w @ [Call (Lstat p)]\<rparr>)"
  by (auto simp: isSymlink_def lstat_eq split: option.splits)

lemma readlink_eq:
  "readlink E p w =
     ((if Readlink p \<in> set (faults E) then Inl (IOError (Readlink p))
       else case lookup (fs w) (key E p) of
              Some (Link l) \<Rightarrow> Inr l
            | _ \<Rightarrow> Inl (IOError (Readlink p))),
      w\<lparr>trace := trace w @ [Call (Readlink p)]\<rparr>)"
  by (simp add: readlink_def syscall_io_def Let_def split: option.splits node.splits)

lemma readdir_eq:
  "readdir E p w =
     ((if Readdir p \<in> set (faults E) then Inl (IOError (Readdir p))
       else case lookup (fs w) (key E p) of
              Some (Dir es) \<Rightarrow> Inr (map fst es)
            | _ \<Rightarrow> Inl (IOError (Readdir p))),
      w\<lparr>trace := trace w @ [Call (Readdir p)]\<rparr>)"
  by (simp add: readdir_def syscall_io_def Let_def split: option.splits node.splits)

lemma verifyLinkPointsTo_fst:
  "fst (verifyLinkPointsTo E p q w) = Inr (link_ok E (fs w) p q)"
  by (auto simp: verifyLinkPointsTo_def lstat_eq readlink_eq link_ok_def resolves_to_def Let_def
      split: option.splits node.splits)

lemma verifyLinkPointsTo_fs: "fs (snd (verifyLinkPointsTo E p q w)) = fs w"
  by (auto simp: verifyLinkPointsTo_def lstat_eq readlink_eq Let_def
      split: option.splits node.splits)

lemma verifyLinkPointsTo_eq:
  "verifyLinkPointsTo E p q w = (r, w') \<Longrightarrow> r = Inr (link_ok E (fs w) p q) \<and> fs w' = fs w"
  using verifyLinkPointsTo_fst [of E p q w] verifyLinkPointsTo_fs [of E p q w] by simp

lemma main_install_fresh_empty:
  "Readdir (target E) \<notin> set (faults E) \<Longrightarrow> lookup (fs w) (key E (target E)) = Some (Dir []) \<Longrightarrow>
     main_install_fresh E w = runNpmInstall E (w\<lparr>trace := trace w @ [Call (Readdir (target E))]\<rparr>)"
  by (simp add: main_install_fresh_def bind_def readdir_eq)

lemma main_install_fresh_cached:
  "Readdir (target E) \<notin> set (faults E) \<Longrightarrow>
     lookup (fs w) (key E (target E)) = Some (Dir (e # es)) \<Longrightarrow>
     main_install_fresh E w =
       (Inr (), w\<lparr>trace := trace w @ [Call (Readdir (target E)), Print AlreadyCached]\<rparr>)"
  by (simp add: main_install_fresh_def bind_def readdir_eq console_log_def)

lemma main_install_fresh_unreadable:
  "Readdir (target E) \<in> set (faults E) \<or> (\<forall>es. lookup (fs w) (key E (target E)) \<noteq> Some (Dir es)) \<Longrightarrow>
     main_install_fresh E w =
       (Inl (IOError (Readdir (target E))), w\<lparr>trace := trace w @ [Call (Readdir (target E))]\<rparr>)"
  by (auto simp: main_install_fresh_def bind_def readdir_eq split: option.splits node.splits)

lemma main_install_linked_missing:
  "Lstat (target E) \<in> set (faults E) \<or> lookup (fs w) (key E (target E)) = None \<Longrightarrow>
     main_install_linked E w =
       runNpmInstall E (w\<lparr>trace := trace w @ [Call (Lstat (target E))]\<rparr>)"
  by (auto simp: main_install_linked_def bind_def exists_eq return_def)

lemma main_install_linked_empty:
  "Lstat (target E) \<notin> set (faults E) \<Longrightarrow> Readdir (target E) \<notin> set (faults E) \<Longrightarrow>
     lookup (fs w) (key E (target E)) = Some (Dir []) \<Longrightarrow>
     main_install_linked E w =
       runNpmInstall E
         (w\<lparr>trace := trace w @ [Call (Lstat (target E)), Call (Readdir (target E))]\<rparr>)"
  by (simp add: main_install_linked_def bind_def exists_eq readdir_eq)

lemma main_install_linked_cached:
  "Lstat (target E) \<notin> set (faults E) \<Longrightarrow> Readdir (target E) \<notin> set (faults E) \<Longrightarrow>
     lookup (fs w) (key E (target E)) = Some (Dir (e # es)) \<Longrightarrow>
     main_install_linked E w =
       (Inr (), w\<lparr>trace := trace w @ [Call (Lstat (target E)), Call (Readdir (target E))]\<rparr>)"
  by (simp add: main_install_linked_def bind_def exists_eq readdir_eq return_def)

lemma spawns_trace_append:
  "spawns (w\<lparr>trace := trace w @ tr\<rparr>) = spawns w + count_list tr Spawn"
  by (induction tr arbitrary: w rule: rev_induct) (simp_all add: spawns_def)

lemma spawns_main_install_le: "spawns (snd (main_install E k w)) \<le> Suc (spawns w)"
proof (cases k)
  case Confirmed
  have "spawns (snd (main_install_linked E w)) \<le> Suc (spawns w)"
    by (auto simp: main_install_linked_def bind_def exists_eq readdir_eq return_def
        spawns_runNpmInstall spawns_trace_append split: option.splits node.splits)
  with Confirmed show ?thesis by (simp add: main_install_def)
next
  case Established
  have "spawns (snd (main_install_fresh E w)) \<le> Suc (spawns w)"
    by (auto simp: main_install_fresh_def bind_def readdir_eq console_log_def
        spawns_runNpmInstall spawns_trace_append split: option.splits node.splits)
  with Established show ?thesis by (simp add: main_install_def)
qed

lemma main_after_resolve:
  "main_resolve E w = (Inr k, wL) \<Longrightarrow> main E w = main_install E k wL"
  by (simp add: main_resolve_install bind_def)

lemma main_resolve_failed:
  "main_resolve E w = (Inl e, wL) \<Longrightarrow> main E w = (Inl e, wL)"
  by (simp add: main_resolve_install bind_def)

lemma spawns_main_resolve: "main_resolve E w = (r, wL) \<Longrightarrow> spawns wL = spawns w"
  using quiet_main_resolve [of E] by (metis quiet_def snd_conv)

lemmas sample_defs =
  sample_env_def sample_digest_def sample_tree_def sample_tree_linked_def sample_target_def
  sample_world_def sample_world_linked_def

subsection \<open>Installing once\<close>

text \<open>
  C6. No run starts the installer more than once, and a run that does not reach the
  linked state never starts it. In a run that reaches the linked state with a cache
  target that can be read: an empty cache target starts the installer exactly once, a
  cache target with at least one entry never.
\<close>

theorem install_once:
  "spawns (snd (main E w)) \<le> Suc (spawns w) \<and>
   (\<forall>e wL. main_resolve E w = (Inl e, wL) \<longrightarrow> spawns (snd (main E w)) = spawns w) \<and>
   (\<forall>k wL. main_resolve E w = (Inr k, wL) \<and>
        Lstat (target E) \<notin> set (faults E) \<and> Readdir (target E) \<notin> set (faults E) \<longrightarrow>
      (lookup (fs wL) (key E (target E)) = Some (Dir []) \<longrightarrow>
         spawns (snd (main E w)) = Suc (spawns w)) \<and>
      (\<forall>x xs. lookup (fs wL) (key E (target E)) = Some (Dir (x # xs)) \<longrightarrow>
         spawns (snd (main E w)) = spawns w))"
proof (intro conjI allI impI)
  show "spawns (snd (main E w)) \<le> Suc (spawns w)"
  proof (cases "main_resolve E w")
    case (Pair r wL)
    then have s: "spawns wL = spawns w" by (rule spawns_main_resolve)
    show ?thesis
    proof (cases r)
      case (Inl e)
      with Pair s show ?thesis by (simp add: main_resolve_failed)
    next
      case (Inr k)
      with Pair s spawns_main_install_le [of E k wL] show ?thesis
        by (simp add: main_after_resolve)
    qed
  qed
next
  fix e wL
  assume "main_resolve E w = (Inl e, wL)"
  then show "spawns (snd (main E w)) = spawns w"
    using spawns_main_resolve [of E w "Inl e" wL] by (simp add: main_resolve_failed)
next
  fix k wL
  assume h: "main_resolve E w = (Inr k, wL) \<and>
        Lstat (target E) \<notin> set (faults E) \<and> Readdir (target E) \<notin> set (faults E)"
    and z: "lookup (fs wL) (key E (target E)) = Some (Dir [])"
  from h have s: "spawns wL = spawns w" using spawns_main_resolve by blast
  from h z show "spawns (snd (main E w)) = Suc (spawns w)"
    by (cases k)
       (simp_all add: main_after_resolve main_install_def main_install_linked_empty
          main_install_fresh_empty spawns_runNpmInstall spawns_trace_append s)
next
  fix k wL x xs
  assume h: "main_resolve E w = (Inr k, wL) \<and>
        Lstat (target E) \<notin> set (faults E) \<and> Readdir (target E) \<notin> set (faults E)"
    and z: "lookup (fs wL) (key E (target E)) = Some (Dir (x # xs))"
  from h have s: "spawns wL = spawns w" using spawns_main_resolve by blast
  from h z show "spawns (snd (main E w)) = spawns w"
    by (cases k)
       (simp_all add: main_after_resolve main_install_def main_install_linked_cached
          main_install_fresh_cached spawns_trace_append s)
qed

lemma sample_fresh_resolve:
  "fst (main_resolve sample_env sample_world) = Inr Established \<and>
   lookup (fs (snd (main_resolve sample_env sample_world))) (key sample_env (target sample_env))
     = Some (Dir [])"
  by (simp add: sample_defs script_defs)

lemma sample_linked_resolve:
  "fst (main_resolve sample_env sample_world_linked) = Inr Confirmed \<and>
   lookup (fs (snd (main_resolve sample_env sample_world_linked)))
     (key sample_env (target sample_env)) = Some (Dir [(''left-pad'', Dir [])])"
  by (simp add: sample_defs script_defs)

theorem install_once_witness:
  "spawns (snd (main sample_env sample_world)) = 1 \<and>
   spawns (snd (main sample_env sample_world_linked)) = 0 \<and>
   spawns (snd (main mismatch_env mismatch_world)) = 0"
proof -
  have f: "Lstat (target sample_env) \<notin> set (faults sample_env) \<and>
      Readdir (target sample_env) \<notin> set (faults sample_env)"
    by (simp add: sample_env_def)
  have r1: "main_resolve sample_env sample_world
      = (Inr Established, snd (main_resolve sample_env sample_world))"
    using sample_fresh_resolve by (simp add: prod_eq_iff)
  have r2: "main_resolve sample_env sample_world_linked
      = (Inr Confirmed, snd (main_resolve sample_env sample_world_linked))"
    using sample_linked_resolve by (simp add: prod_eq_iff)
  have "fst (main_resolve mismatch_env mismatch_world) = Inl (LinkMismatch (target mismatch_env))"
    by (simp add: mismatch_env_def mismatch_tree_def mismatch_world_def sample_defs script_defs)
  then have r3: "main_resolve mismatch_env mismatch_world
      = (Inl (LinkMismatch (target mismatch_env)), snd (main_resolve mismatch_env mismatch_world))"
    by (simp add: prod_eq_iff)
  have s: "spawns sample_world = 0" "spawns sample_world_linked = 0" "spawns mismatch_world = 0"
    by (simp_all add: spawns_def sample_world_def sample_world_linked_def mismatch_world_def)
  from install_once [of sample_env sample_world] r1 f sample_fresh_resolve s
  have a: "spawns (snd (main sample_env sample_world)) = 1" by simp
  from install_once [of sample_env sample_world_linked] r2 f sample_linked_resolve s
  have b: "spawns (snd (main sample_env sample_world_linked)) = 0" by simp
  from install_once [of mismatch_env mismatch_world] r3 s
  have c: "spawns (snd (main mismatch_env mismatch_world)) = 0" by metis
  from a b c show ?thesis by simp
qed

lemma unreadable_target: "target unreadable_env = sample_target"
  by (simp add: unreadable_env_def sample_defs script_defs)

lemma dangling_resolve:
  "fst (main_resolve sample_env sample_world_dangling) = Inr Confirmed \<and>
   lookup (fs (snd (main_resolve sample_env sample_world_dangling)))
     (key sample_env (target sample_env)) = None"
  by (simp add: sample_tree_dangling_def sample_world_dangling_def sample_defs script_defs)

lemma unreadable_fresh_resolve:
  "fst (main_resolve unreadable_env sample_world) = Inr Established \<and>
   lookup (fs (snd (main_resolve unreadable_env sample_world)))
     (key unreadable_env sample_target) = Some (Dir []) \<and>
   spawns (snd (main_resolve unreadable_env sample_world)) = 0"
  by (simp add: unreadable_env_def sample_defs script_defs)

text \<open>
  C7, as stated, fails: the link has just been created and verified, the listing of
  the cache target is refused, and the run ends with that error without starting the
  installer.
\<close>

theorem unreadable_cache_counterexample:
  "fst (main_resolve unreadable_env sample_world) = Inr Established \<and>
   fst (readdir unreadable_env (target unreadable_env)
          (snd (main_resolve unreadable_env sample_world)))
     = Inl (IOError (Readdir (target unreadable_env))) \<and>
   fst (main unreadable_env sample_world) = Inl (IOError (Readdir (target unreadable_env))) \<and>
   spawns (snd (main unreadable_env sample_world)) = 0"
proof -
  have r: "main_resolve unreadable_env sample_world
      = (Inr Established, snd (main_resolve unreadable_env sample_world))"
    using unreadable_fresh_resolve by (simp add: prod_eq_iff)
  have f: "Readdir (target unreadable_env) \<in> set (faults unreadable_env)"
    by (simp add: unreadable_target) (simp add: unreadable_env_def sample_env_def)
  have m: "main unreadable_env sample_world =
      main_install_fresh unreadable_env (snd (main_resolve unreadable_env sample_world))"
    using main_after_resolve [OF r] by (simp add: main_install_def)
  have i: "main_install_fresh unreadable_env (snd (main_resolve unreadable_env sample_world))
      = (Inl (IOError (Readdir (target unreadable_env))),
         (snd (main_resolve unreadable_env sample_world))
           \<lparr>trace := trace (snd (main_resolve unreadable_env sample_world))
              @ [Call (Readdir (target unreadable_env))]\<rparr>)"
    using f by (intro main_install_fresh_unreadable) simp
  show ?thesis
    using unreadable_fresh_resolve f m i by (simp add: readdir_eq spawns_trace_append)
qed

text \<open>
  C7, amended. At the emptiness check of a slot found linked, a cache target that
  \<^verbatim>\<open>lstat\<close> does not find counts as empty and the installer is started. At the
  emptiness check after a link just created, a listing that fails ends the run with
  that error; the installer is not started and the tree stays as it was when the
  link was verified.
\<close>

theorem unreadable_cache_is_fatal:
  assumes "main_resolve E w = (Inr k, wL)"
  shows "(k = Confirmed \<and>
            (Lstat (target E) \<in> set (faults E) \<or> lookup (fs wL) (key E (target E)) = None)
          \<longrightarrow> spawns (snd (main E w)) = Suc (spawns w)) \<and>
         (k = Established \<and>
            (Readdir (target E) \<in> set (faults E) \<or>
             (\<forall>es. lookup (fs wL) (key E (target E)) \<noteq> Some (Dir es)))
          \<longrightarrow> fst (main E w) = Inl (IOError (Readdir (target E))) \<and>
              spawns (snd (main E w)) = spawns w \<and> fs (snd (main E w)) = fs wL)"
proof (intro conjI impI)
  from assms have s: "spawns wL = spawns w" by (rule spawns_main_resolve)
  {
    assume h: "k = Confirmed \<and>
      (Lstat (target E) \<in> set (faults E) \<or> lookup (fs wL) (key E (target E)) = None)"
    then have "main E w = runNpmInstall E (wL\<lparr>trace := trace wL @ [Call (Lstat (target E))]\<rparr>)"
      using assms by (simp add: main_after_resolve main_install_def main_install_linked_missing)
    then show "spawns (snd (main E w)) = Suc (spawns w)"
      by (simp add: spawns_runNpmInstall spawns_trace_append s)
  }
  assume h: "k = Established \<and>
      (Readdir (target E) \<in> set (faults E) \<or>
        (\<forall>es. lookup (fs wL) (key E (target E)) \<noteq> Some (Dir es)))"
  with assms have "main E w = (Inl (IOError (Readdir (target E))),
      wL\<lparr>trace := trace wL @ [Call (Readdir (target E))]\<rparr>)"
    by (simp add: main_after_resolve main_install_def main_install_fresh_unreadable)
  then show "fst (main E w) = Inl (IOError (Readdir (target E)))"
    and "spawns (snd (main E w)) = spawns w" and "fs (snd (main E w)) = fs wL"
    by (simp_all add: spawns_trace_append s)
qed

theorem unreadable_cache_is_fatal_witness:
  "spawns (snd (main sample_env sample_world_dangling)) = 1 \<and>
   fst (main unreadable_env sample_world) = Inl (IOError (Readdir sample_target))"
proof -
  have r1: "main_resolve sample_env sample_world_dangling
      = (Inr Confirmed, snd (main_resolve sample_env sample_world_dangling))"
    using dangling_resolve by (simp add: prod_eq_iff)
  have r2: "main_resolve unreadable_env sample_world
      = (Inr Established, snd (main_resolve unreadable_env sample_world))"
    using unreadable_fresh_resolve by (simp add: prod_eq_iff)
  have s: "spawns sample_world_dangling = 0"
    by (simp add: spawns_def sample_world_dangling_def)
  have f: "Readdir (target unreadable_env) \<in> set (faults unreadable_env)"
    by (simp add: unreadable_target) (simp add: unreadable_env_def sample_env_def)
  from unreadable_cache_is_fatal [OF r1] dangling_resolve s
  have a: "spawns (snd (main sample_env sample_world_dangling)) = 1" by simp
  from unreadable_cache_is_fatal [OF r2] f
  have b: "fst (main unreadable_env sample_world) = Inl (IOError (Readdir sample_target))"
    by (simp add: unreadable_target)
  from a b show ?thesis by simp
qed

subsection \<open>The exit status\<close>

text \<open>
  C8, as stated, fails: the installer exits with 2, the run exits with 1.
\<close>

theorem exit_status_counterexample:
  "fst (main failing_npm_env sample_world) = Inl (InstallerFailure (Some 2)) \<and>
   fst (run failing_npm_env sample_world) = 1"
  by (simp add: failing_npm_env_def sample_defs script_defs)

lemma raises_bind: "raises P m \<Longrightarrow> (\<And>x. raises P (f x)) \<Longrightarrow> raises P (bind m f)"
  unfolding raises_def bind_def by (auto split: prod.splits sum.splits)

lemma raises_return: "raises P (return x)"
  by (simp add: raises_def return_def)

lemma raises_throw: "P e \<Longrightarrow> raises P (throw e)"
  by (simp add: raises_def throw_def)

lemma raises_attempt: "raises P (attempt m)"
  by (auto simp: raises_def attempt_def split: prod.splits)

lemma raises_console_log: "raises P (console_log m)"
  by (simp add: raises_def console_log_def)

lemma raises_syscall_io: "P (IOError c) \<Longrightarrow> raises P (syscall_io E c f)"
  by (auto simp: raises_def syscall_io_def Let_def split: if_splits option.splits)

lemma raises_calls:
  "raises (from_installer E) (lstat E p)" "raises (from_installer E) (readlink E p)"
  "raises (from_installer E) (readdir E p)" "raises (from_installer E) (mkdir E p)"
  "raises (from_installer E) (rename E p q)" "raises (from_installer E) (rm E p)"
  "raises (from_installer E) (symlink E p q ty)"
  by (simp_all add: lstat_def readlink_def readdir_def mkdir_def rename_def rm_def symlink_def
      raises_syscall_io from_installer_def)

lemma raises_exists: "raises P (exists E p)"
  by (simp add: raises_def exists_eq)

lemma raises_isSymlink: "raises P (isSymlink E p)"
  by (simp add: raises_def isSymlink_eq)

lemma raises_verifyLinkPointsTo: "raises P (verifyLinkPointsTo E p q)"
  using verifyLinkPointsTo_fst [of E p q] by (auto simp: raises_def) (metis fst_conv sum.distinct(1))

lemma raises_windowsJunctionPreflight: "raises P (windowsJunctionPreflight E)"
  by (auto simp: raises_def windowsJunctionPreflight_def split: prod.splits)

lemma raises_runNpmInstall: "raises (from_installer E) (runNpmInstall E)"
  by (auto simp: raises_def runNpmInstall_def Let_def from_installer_def split: if_splits)

lemma raises_main_confirm: "raises (from_installer E) (main_confirm E)"
  unfolding main_confirm_def
  by (intro raises_bind raises_verifyLinkPointsTo)
     (simp add: raises_throw raises_console_log from_installer_def)

lemma raises_main_install_linked: "raises (from_installer E) (main_install_linked E)"
  unfolding main_install_linked_def
  by (intro raises_bind raises_exists)
     (simp_all add: raises_calls raises_return raises_runNpmInstall)

lemma raises_main_relocate: "raises (from_installer E) (main_relocate E)"
  unfolding main_relocate_def
  by (intro raises_bind raises_exists raises_attempt)
     (simp_all add: raises_bind raises_isSymlink raises_return raises_calls raises_console_log)

lemma raises_main_preflight: "raises (from_installer E) (main_preflight E)"
  unfolding main_preflight_def
  by (simp add: raises_bind raises_windowsJunctionPreflight raises_throw raises_return
      from_installer_def)

lemma raises_main_establish: "raises (from_installer E) (main_establish E)"
proof -
  have "raises (from_installer E) (\<lambda>w. case symlink E (target E) (nmPath E) (linkType E) w of
                 (Inl _, w') \<Rightarrow>
                   (Inl (LinkCreationFailed (Symlink (target E) (nmPath E) (linkType E))), w')
               | (Inr u, w') \<Rightarrow> (Inr u, w'))"
    by (auto simp: raises_def from_installer_def split: prod.splits sum.splits)
  then show ?thesis
    unfolding main_establish_def
    by (intro raises_bind raises_verifyLinkPointsTo)
       (simp_all add: raises_bind raises_attempt raises_throw raises_console_log
          from_installer_def)
qed

lemma raises_main_install_fresh: "raises (from_installer E) (main_install_fresh E)"
  unfolding main_install_fresh_def
  by (intro raises_bind raises_calls) (simp add: raises_runNpmInstall raises_console_log)

lemma raises_main: "raises (from_installer E) (main E)"
  unfolding main_def
  by (intro raises_bind raises_calls raises_isSymlink)
     (simp add: raises_bind raises_main_confirm raises_main_install_linked raises_main_relocate
        raises_main_preflight raises_main_establish raises_main_install_fresh)

text \<open>
  C8, amended. The exit status is 0 for the help flag and for a \<^verbatim>\<open>main\<close> that
  returns, and 1 for every error of \<^verbatim>\<open>main\<close>. An installer failure is raised only
  for an exit code of the installer other than 0; that code is kept in the error,
  and the exit status is 1 all the same.
\<close>

theorem exit_status:
  "fst (run E w) =
     (if ''--help'' \<in> set (argv E) \<or> ''-h'' \<in> set (argv E) then 0
      else case fst (main E w) of Inl e \<Rightarrow> 1 | Inr u \<Rightarrow> 0) \<and>
   (\<forall>c. fst (main E w) = Inl (InstallerFailure c) \<longrightarrow>
      c \<noteq> Some 0 \<and> (\<exists>t. fst (npm E t) = c) \<and>
      (''--help'' \<notin> set (argv E) \<and> ''-h'' \<notin> set (argv E) \<longrightarrow> fst (run E w) = 1))"
proof -
  have a: "fst (run E w) =
     (if ''--help'' \<in> set (argv E) \<or> ''-h'' \<in> set (argv E) then 0
      else case fst (main E w) of Inl e \<Rightarrow> 1 | Inr u \<Rightarrow> 0)"
    by (simp add: run_def split: prod.splits sum.splits)
  have b: "c \<noteq> Some 0 \<and> (\<exists>t. fst (npm E t) = c)"
    if "fst (main E w) = Inl (InstallerFailure c)" for c
  proof -
    from that have "main E w = (Inl (InstallerFailure c), snd (main E w))"
      by (simp add: prod_eq_iff)
    with raises_main [of E] have "from_installer E (InstallerFailure c)"
      unfolding raises_def by blast
    then show ?thesis by (simp add: from_installer_def)
  qed
  from a b show ?thesis by simp
qed

theorem exit_status_witness:
  "fst (run failing_npm_env sample_world) = 1 \<and>
   (\<exists>t. fst (npm failing_npm_env t) = Some 2)"
proof -
  have m: "fst (main failing_npm_env sample_world) = Inl (InstallerFailure (Some 2))"
    by (simp add: failing_npm_env_def sample_defs script_defs)
  have h: "''--help'' \<notin> set (argv failing_npm_env) \<and> ''-h'' \<notin> set (argv failing_npm_env)"
    by (simp add: failing_npm_env_def sample_env_def)
  from exit_status [of failing_npm_env sample_world] m h show ?thesis by simp
qed

subsection \<open>The trace only grows\<close>




















lemma mkdir_ok:
  "Mkdir p \<notin> set (faults E) \<Longrightarrow> mkdirp (fs w) (key E p) = Some t \<Longrightarrow>
     mkdir E p w = (Inr (), w\<lparr>trace := trace w @ [Call (Mkdir p)], fs := t\<rparr>)"
  by (simp add: mkdir_def syscall_io_def Let_def)

lemma mkdir_InrD:
  "mkdir E p w = (Inr u, w') \<Longrightarrow>
     Mkdir p \<notin> set (faults E) \<and> mkdirp (fs w) (key E p) = Some (fs w') \<and>
     trace w' = trace w @ [Call (Mkdir p)]"
  by (auto simp: mkdir_def syscall_io_def Let_def split: if_splits option.splits)




lemma main_unfold:
  "main E w =
     (case mkdir E (storeDir E) w of
        (Inl e, w1) \<Rightarrow> (Inl e, w1)
      | (Inr u, w1) \<Rightarrow>
          (let l = (Lstat (nmPath E) \<notin> set (faults E) \<and>
                    (case lookup (fs w1) (key E (nmPath E)) of
                       Some n \<Rightarrow> kind_of n = IsLink | None \<Rightarrow> False));
               w2 = w1\<lparr>trace := trace w1 @ [Call (Lstat (nmPath E))]\<rparr>
           in (if l then bind (main_confirm E) (\<lambda>_. main_install_linked E)
               else bind (main_relocate E)
                      (\<lambda>_. bind (main_preflight E)
                      (\<lambda>_. bind (main_establish E)
                      (\<lambda>_. main_install_fresh E)))) w2))"
  by (simp add: main_def bind_def isSymlink_eq Let_def split: prod.splits sum.splits)

subsection \<open>A slot linked elsewhere\<close>




subsection \<open>The cache root comes first\<close>



subsection \<open>Moving, linking and listing, step by step\<close>

lemma rename_InrD:
  "rename E a b w = (Inr u, w') \<Longrightarrow>
     rename_tree (platform E = Win32) (fs w) (key E a) (key E b) = Some (fs w')"
  by (auto simp: rename_def syscall_io_def Let_def split: if_splits option.splits)

lemma rename_failed:
  "Rename a b \<in> set (faults E) \<or>
   rename_tree (platform E = Win32) (fs w) (key E a) (key E b) = None \<Longrightarrow>
     rename E a b w = (Inl (IOError (Rename a b)), w\<lparr>trace := trace w @ [Call (Rename a b)]\<rparr>)"
  by (auto simp: rename_def syscall_io_def Let_def)

lemma attempt_rm_eq:
  "attempt (rm E p) w =
     (Inr (), w\<lparr>trace := trace w @ [Call (Rm p)],
               fs := (if Rm p \<in> set (faults E) then fs w else del (fs w) (key E p))\<rparr>)"
  by (simp add: attempt_def rm_def syscall_io_def Let_def)

lemma symlink_InrD:
  "symlink E t p ty w = (Inr u, w') \<Longrightarrow>
     lookup (fs w) (key E p) = None \<and> parent_is_dir (fs w) (key E p) \<and>
     (\<exists>raw. fs w' = put (fs w) (key E p) (Link raw)) \<and>
     trace w' = trace w @ [Call (Symlink t p ty)]"
  by (auto simp: symlink_def syscall_io_def Let_def split: if_splits)

text \<open>Leaving a location as it is.\<close>

lemma keeps_bind: "keeps q m \<Longrightarrow> (\<And>x. keeps q (f x)) \<Longrightarrow> keeps q (bind m f)"
  by (auto simp: keeps_def bind_def split: prod.splits sum.splits) (metis snd_conv)+

lemma keeps_attempt: "keeps q m \<Longrightarrow> keeps q (attempt m)"
  by (auto simp: keeps_def attempt_def split: prod.splits) (metis snd_conv)

lemma keeps_verifyLinkPointsTo: "keeps q (verifyLinkPointsTo E p t)"
  by (simp add: keeps_def verifyLinkPointsTo_fs)

lemma keeps_mkdir: "\<not> prefix q (key E p) \<Longrightarrow> keeps q (mkdir E p)"
  by (auto simp: keeps_def mkdir_def syscall_io_def Let_def mkdirp_other split: option.splits)

lemma keeps_rm: "apart (key E p) q \<Longrightarrow> keeps q (rm E p)"
  by (auto simp: keeps_def rm_def syscall_io_def Let_def apart_def lookup_del_other)

lemma keeps_symlink: "apart (key E p) q \<Longrightarrow> keeps q (symlink E t p ty)"
  by (auto simp: keeps_def symlink_def syscall_io_def Let_def apart_def lookup_put_other)

lemma apart_snoc: "apart p q \<Longrightarrow> apart (p @ [c]) q"
  by (auto simp: apart_def) (metis prefix_order.trans prefixI prefix_snoc)+

lemma keeps_windowsJunctionPreflight:
  assumes "apart (key E (tmpRoot E)) q"
  shows "keeps q (windowsJunctionPreflight E)"
proof -
  have tt: "key E (tmpTarget E) = key E (tmpRoot E) @ [''tgt'']"
    and tl: "key E (tmpLink E) = key E (tmpRoot E) @ [''lnk'']"
    by (simp_all add: tmpTarget_def tmpLink_def key_path_join_snoc plain_def)
  from assms have at: "apart (key E (tmpTarget E)) q" and al: "apart (key E (tmpLink E)) q"
    unfolding tt tl by (rule apart_snoc)+
  let ?body = "bind (mkdir E (tmpTarget E))
             (\<lambda>_. bind (symlink E (tmpTarget E) (tmpLink E) Junction)
             (\<lambda>_. verifyLinkPointsTo E (tmpLink E) (tmpTarget E)))"
  let ?fin = "bind (attempt (rm E (tmpLink E)))
                  (\<lambda>_. bind (attempt (rm E (tmpTarget E)))
                  (\<lambda>_. attempt (rm E (tmpRoot E))))"
  have b: "keeps q ?body"
    using at al
    by (intro keeps_bind keeps_mkdir keeps_symlink keeps_verifyLinkPointsTo)
       (simp_all add: apart_def)
  have f: "keeps q ?fin"
    using at al assms by (intro keeps_bind keeps_attempt keeps_rm)
  have "lookup (fs (snd (windowsJunctionPreflight E w))) q = lookup (fs w) q" for w
  proof -
    obtain r w1 where 1: "?body w = (r, w1)" by (cases "?body w")
    obtain r' w2 where 2: "?fin w1 = (r', w2)" by (cases "?fin w1")
    from b 1 have "lookup (fs w1) q = lookup (fs w) q" by (metis keeps_def snd_conv)
    moreover from f 2 have "lookup (fs w2) q = lookup (fs w1) q" by (metis keeps_def snd_conv)
    ultimately show ?thesis using 1 2 by (simp add: windowsJunctionPreflight_def)
  qed
  then show ?thesis by (simp add: keeps_def)
qed

lemma keeps_main_preflight:
  assumes "isWin E \<Longrightarrow> apart (key E (tmpRoot E)) q"
  shows "keeps q (main_preflight E)"
proof (cases "isWin E")
  case True
  with assms have "keeps q (windowsJunctionPreflight E)"
    by (simp add: keeps_windowsJunctionPreflight)
  then have "keeps q (bind (windowsJunctionPreflight E)
      (\<lambda>ok. if \<not> ok then throw LinkUnsupported else return ()))"
    by (rule keeps_bind) (simp add: keeps_def throw_def return_def)
  with True show ?thesis by (simp add: main_preflight_def)
next
  case False
  then show ?thesis by (simp add: main_preflight_def keeps_def return_def)
qed

text \<open>The slot and the cache target are different locations.\<close>

lemma slot_not_target: "sha1 E (cwd E) \<noteq> [] \<Longrightarrow> key E (nmPath E) \<noteq> key E (target E)"
  using hash_not_node_modules [of E] by (simp add: key_target key_nmPath)

lemma store_prefix_target: "prefix (key E (storeDir E)) (key E (target E))"
  by (simp add: key_target)

lemma nmPath_nonempty: "key E (nmPath E) \<noteq> []"
  by (simp add: key_nmPath)

text \<open>Lines 157 to 166 on a real directory.\<close>

lemma main_relocate_moves:
  assumes run: "main_relocate E w = (Inr u, w')"
    and dir: "lookup (fs w) (key E (nmPath E)) = Some (Dir ds)"
    and st: "Lstat (nmPath E) \<notin> set (faults E)"
    and ne: "key E (nmPath E) \<noteq> key E (target E)"
  shows "lookup (fs w') (key E (target E)) = Some (Dir ds) \<and>
         lookup (fs w') (key E (nmPath E)) = None \<and>
         apart (key E (nmPath E)) (key E (target E))"
proof -
  let ?nk = "key E (nmPath E)" and ?tk = "key E (target E)"
  let ?wa = "w\<lparr>trace := trace w @ [Call (Lstat (nmPath E)), Call (Lstat (nmPath E))]\<rparr>"
  let ?real = "bind (exists E (nmPath E))
       (\<lambda>e. if e then bind (isSymlink E (nmPath E)) (\<lambda>l. return (\<not> l)) else return False)"
  let ?move = "\<lambda>real. bind (if real then
                       bind (mkdir E (target E))
                         (\<lambda>_. bind (rename E (nmPath E) (target E))
                         (\<lambda>_. console_log (Moved (target E))))
                     else mkdir E (target E))
       (\<lambda>_. attempt (rm E (nmPath E)))"
  have real: "?real w = (Inr True, ?wa)"
    using dir st by (simp add: bind_def exists_eq isSymlink_eq return_def)
  have "bind ?real ?move w = ?move True ?wa"
    using real by (rule bind_Inr)
  with run have "bind (bind (mkdir E (target E))
        (\<lambda>_. bind (rename E (nmPath E) (target E)) (\<lambda>_. console_log (Moved (target E)))))
        (\<lambda>_. attempt (rm E (nmPath E))) ?wa = (Inr u, w')"
    unfolding main_relocate_def by simp
  then obtain x1 wd where mv: "bind (mkdir E (target E))
        (\<lambda>_. bind (rename E (nmPath E) (target E)) (\<lambda>_. console_log (Moved (target E)))) ?wa
        = (Inr x1, wd)"
    and rmv: "attempt (rm E (nmPath E)) wd = (Inr u, w')"
    by (erule bind_InrE)
  from mv obtain x2 wb where mk: "mkdir E (target E) ?wa = (Inr x2, wb)"
    and rest: "bind (rename E (nmPath E) (target E)) (\<lambda>_. console_log (Moved (target E))) wb
        = (Inr x1, wd)"
    by (erule bind_InrE)
  from rest obtain x3 wc where rn: "rename E (nmPath E) (target E) wb = (Inr x3, wc)"
    and lg: "console_log (Moved (target E)) wc = (Inr x1, wd)"
    by (erule bind_InrE)
  from mkdir_InrD [OF mk] have p: "mkdirp (fs w) ?tk = Some (fs wb)" by simp
  from mkdirp_preserve [OF p dir] obtain n' where n': "lookup (fs wb) ?nk = Some n'" by blast
  from rename_InrD [OF rn]
  have rt: "rename_tree (platform E = Win32) (fs wb) ?nk ?tk = Some (fs wc)" .
  from rename_tree_moves [OF rt ne n']
  have a: "lookup (fs wc) ?tk = Some n'" and b: "lookup (fs wc) ?nk = None"
    and c: "\<not> prefix ?nk ?tk" and d: "\<not> prefix ?tk ?nk" by simp_all
  from mkdirp_other [OF p c] dir n' have "n' = Dir ds" by simp
  from lg have "fs wd = fs wc" by (auto simp: console_log_def)
  with rmv b have "fs w' = fs wc" by (auto simp: attempt_rm_eq del_absent)
  with a b c d \<open>n' = Dir ds\<close> show ?thesis by (simp add: apart_def)
qed

text \<open>Lines 186 to 221, when they return.\<close>

lemma main_establish_InrD:
  assumes "main_establish E w = (Inr u, w')"
  shows "lookup (fs w) (key E (nmPath E)) = None \<and>
         (\<exists>raw. fs w' = put (fs w) (key E (nmPath E)) (Link raw)) \<and>
         link_ok E (fs w') (nmPath E) (target E)"
proof -
  let ?sl = "\<lambda>w. case symlink E (target E) (nmPath E) (linkType E) w of
                 (Inl _, w') \<Rightarrow>
                   (Inl (LinkCreationFailed (Symlink (target E) (nmPath E) (linkType E))), w')
               | (Inr u, w') \<Rightarrow> (Inr u, w')"
  from assms obtain x w1 where s: "?sl w = (Inr x, w1)"
    and r: "bind (verifyLinkPointsTo E (nmPath E) (target E))
       (\<lambda>linkedOk.
          if \<not> linkedOk then
            bind (attempt (rm E (nmPath E))) (\<lambda>_. throw (LinkVerificationFailed (target E)))
          else console_log (Linked (target E) (linkType E))) w1 = (Inr u, w')"
    unfolding main_establish_def by (erule bind_InrE)
  from s have sy: "symlink E (target E) (nmPath E) (linkType E) w = (Inr x, w1)"
    by (auto split: prod.splits sum.splits)
  from r obtain ok w2 where v: "verifyLinkPointsTo E (nmPath E) (target E) w1 = (Inr ok, w2)"
    and k: "(if \<not> ok then
            bind (attempt (rm E (nmPath E))) (\<lambda>_. throw (LinkVerificationFailed (target E)))
          else console_log (Linked (target E) (linkType E))) w2 = (Inr u, w')"
    by (erule bind_InrE)
  have ok: ok
  proof (rule ccontr)
    assume "\<not> ok"
    with k show False by (simp add: bind_def attempt_rm_eq throw_def)
  qed
  with k have "fs w' = fs w2" by (auto simp: console_log_def)
  moreover from verifyLinkPointsTo_eq [OF v] ok have "link_ok E (fs w1) (nmPath E) (target E)"
    and "fs w2 = fs w1" by simp_all
  ultimately show ?thesis using symlink_InrD [OF sy] by auto
qed

text \<open>Lines 224 to 229, when they return.\<close>

lemma main_install_fresh_InrD:
  assumes "main_install_fresh E w = (Inr u, w')"
  shows "\<exists>es. lookup (fs w) (key E (target E)) = Some (Dir es) \<and> (es \<noteq> [] \<longrightarrow> fs w' = fs w)"
proof -
  from assms obtain files w1 where r: "readdir E (target E) w = (Inr files, w1)"
    and k: "(if length files = 0 then runNpmInstall E else console_log AlreadyCached) w1
        = (Inr u, w')"
    unfolding main_install_fresh_def by (erule bind_InrE)
  from r obtain es where es: "lookup (fs w) (key E (target E)) = Some (Dir es)"
    and f: "files = map fst es" and w1: "fs w1 = fs w"
    by (auto simp: readdir_eq split: if_splits option.splits node.splits)
  from k f w1 have "es \<noteq> [] \<longrightarrow> fs w' = fs w" by (auto simp: console_log_def)
  with es show ?thesis by blast
qed

lemma quietD: "quiet m \<Longrightarrow> m w = (r, w') \<Longrightarrow> spawns w' = spawns w"
  by (metis quiet_def snd_conv)

lemma main_relocate_refused:
  assumes dir: "lookup (fs w) (key E (nmPath E)) = Some (Dir ds)"
    and full: "lookup (fs w) (key E (target E)) = Some (Dir (x # xs))"
    and ne: "key E (nmPath E) \<noteq> key E (target E)"
    and st: "Lstat (nmPath E) \<notin> set (faults E)"
    and mt: "Mkdir (target E) \<notin> set (faults E)"
  shows "fst (main_relocate E w) = Inl (IOError (Rename (nmPath E) (target E))) \<and>
         fs (snd (main_relocate E w)) = fs w"
proof -
  let ?wa = "w\<lparr>trace := trace w @ [Call (Lstat (nmPath E)), Call (Lstat (nmPath E))]\<rparr>"
  let ?wb = "?wa\<lparr>trace := trace ?wa @ [Call (Mkdir (target E))], fs := fs w\<rparr>"
  let ?real = "bind (exists E (nmPath E))
       (\<lambda>e. if e then bind (isSymlink E (nmPath E)) (\<lambda>l. return (\<not> l)) else return False)"
  let ?move = "\<lambda>real. bind (if real then
                       bind (mkdir E (target E))
                         (\<lambda>_. bind (rename E (nmPath E) (target E))
                         (\<lambda>_. console_log (Moved (target E))))
                     else mkdir E (target E))
       (\<lambda>_. attempt (rm E (nmPath E)))"
  have real: "?real w = (Inr True, ?wa)"
    using dir st by (simp add: bind_def exists_eq isSymlink_eq return_def)
  have 1: "main_relocate E w = ?move True ?wa"
    unfolding main_relocate_def using real by (rule bind_Inr)
  have "mkdirp (fs ?wa) (key E (target E)) = Some (fs w)"
    using full by (simp add: mkdirp_existing)
  from mkdir_ok [OF mt this] have mk: "mkdir E (target E) ?wa = (Inr (), ?wb)" .
  have "rename_tree (platform E = Win32) (fs ?wb) (key E (nmPath E)) (key E (target E)) = None"
    using full ne by (simp add: rename_tree_nonempty)
  then have rn: "rename E (nmPath E) (target E) ?wb =
      (Inl (IOError (Rename (nmPath E) (target E))),
       ?wb\<lparr>trace := trace ?wb @ [Call (Rename (nmPath E) (target E))]\<rparr>)"
    by (intro rename_failed) simp
  show ?thesis
    unfolding 1 using mk rn by (simp add: bind_def)
qed

subsection \<open>A cache target that is not empty\<close>

text \<open>
  C5, as stated, fails: the slot is a real directory and the cache target has an
  entry; the run does not move anything and does not go on to create the link, it
  ends with the error of \<^verbatim>\<open>rename\<close>, the slot still holding its directory.
\<close>

theorem occupied_cache_counterexample:
  "lookup (fs occupied_world) (key sample_env (nmPath sample_env))
     = Some (Dir [(''left-pad'', Dir [])]) \<and>
   lookup (fs occupied_world) (key sample_env (target sample_env))
     = Some (Dir [(''old'', File ''x'')]) \<and>
   fst (main sample_env occupied_world)
     = Inl (IOError (Rename (nmPath sample_env) (target sample_env))) \<and>
   lookup (fs (snd (main sample_env occupied_world))) (key sample_env (nmPath sample_env))
     = Some (Dir [(''left-pad'', Dir [])])"
  by (simp add: occupied_tree_def occupied_world_def sample_defs script_defs)

text \<open>
  C5, amended. The slot is a real directory, the cache target a directory with at
  least one entry, and \<^verbatim>\<open>lstat\<close> of the slot and the two \<^verbatim>\<open>mkdir\<close> calls are not
  refused. The run attempts the \<^verbatim>\<open>rename\<close> without a merge and without a check;
  the rename onto a directory that is not empty fails, the run ends with that error,
  the tree is unchanged (no link is created) and the installer is not started.
\<close>

theorem occupied_cache_refuses_move:
  assumes dir: "lookup (fs w) (key E (nmPath E)) = Some (Dir ds)"
    and full: "lookup (fs w) (key E (target E)) = Some (Dir (x # xs))"
    and dg: "sha1 E (cwd E) \<noteq> []"
    and st: "Lstat (nmPath E) \<notin> set (faults E)"
    and ms: "Mkdir (storeDir E) \<notin> set (faults E)"
    and mt: "Mkdir (target E) \<notin> set (faults E)"
  shows "fst (main E w) = Inl (IOError (Rename (nmPath E) (target E))) \<and>
         fs (snd (main E w)) = fs w \<and> spawns (snd (main E w)) = spawns w"
proof -
  have tk: "key E (target E) = key E (storeDir E) @ [hash E]"
    using dg by (simp add: key_target)
  with full obtain e es where "lookup (fs w) (key E (storeDir E)) = Some (Dir (e # es))"
    using lookup_parent_nonempty [of "fs w" "key E (storeDir E)" "hash E" "[]"] by auto
  then have "mkdirp (fs w) (key E (storeDir E)) = Some (fs w)" by (rule mkdirp_existing)
  from mkdir_ok [OF ms this]
  have mk: "mkdir E (storeDir E) w = (Inr (), w\<lparr>trace := trace w @ [Call (Mkdir (storeDir E))]\<rparr>)"
    by simp
  let ?w2 = "w\<lparr>trace := trace w @ [Call (Mkdir (storeDir E)), Call (Lstat (nmPath E))]\<rparr>"
  have ne: "key E (nmPath E) \<noteq> key E (target E)" using dg by (rule slot_not_target)
  have r: "fst (main_relocate E ?w2) = Inl (IOError (Rename (nmPath E) (target E)))"
    and rf: "fs (snd (main_relocate E ?w2)) = fs w"
    using main_relocate_refused [of ?w2 E ds x xs] dir full ne st mt by simp_all
  have rs: "spawns (snd (main_relocate E ?w2)) = spawns ?w2"
    using quiet_main_relocate [of E] by (simp add: quiet_def)
  have "main E w = (Inl (IOError (Rename (nmPath E) (target E))), snd (main_relocate E ?w2))"
    using mk dir st r
    by (cases "main_relocate E ?w2") (simp add: main_unfold bind_def)
  with rf rs show ?thesis by (simp add: spawns_trace_append)
qed

theorem occupied_cache_refuses_move_witness:
  "fst (main sample_env occupied_world)
     = Inl (IOError (Rename (nmPath sample_env) (target sample_env))) \<and>
   fs (snd (main sample_env occupied_world)) = occupied_tree"
proof -
  have h: "lookup (fs occupied_world) (key sample_env (nmPath sample_env))
      = Some (Dir [(''left-pad'', Dir [])])"
    "lookup (fs occupied_world) (key sample_env (target sample_env))
      = Some (Dir [(''old'', File ''x'')])"
    by (simp_all add: occupied_tree_def occupied_world_def sample_defs script_defs)
  have g: "sha1 sample_env (cwd sample_env) \<noteq> []"
    "Lstat (nmPath sample_env) \<notin> set (faults sample_env)"
    "Mkdir (storeDir sample_env) \<notin> set (faults sample_env)"
    "Mkdir (target sample_env) \<notin> set (faults sample_env)"
    by (simp_all add: sample_env_def sample_digest_def)
  from occupied_cache_refuses_move [OF h g] show ?thesis
    by (simp add: occupied_world_def)
qed

subsection \<open>A link that does not read back\<close>

text \<open>
  C3. In a run that gets as far as creating the link at the slot (the steps before
  it returned, \<^verbatim>\<open>symlink\<close> returned) and whose read-back of the link is negative, the
  run ends with \<open>LinkVerificationFailed\<close>; its last call is the removal of the slot,
  and unless that removal is itself refused (it is attempted, its failure swallowed)
  nothing is left at the slot. The installer is not started.
\<close>

theorem unverified_link_removed:
  assumes s1: "mkdir E (storeDir E) w = (Inr (), w1)"
    and s2: "isSymlink E (nmPath E) w1 = (Inr False, w2)"
    and s3: "main_relocate E w2 = (Inr (), w3)"
    and s4: "main_preflight E w3 = (Inr (), w4)"
    and s5: "symlink E (target E) (nmPath E) (linkType E) w4 = (Inr (), w5)"
    and s6: "verifyLinkPointsTo E (nmPath E) (target E) w5 = (Inr False, w6)"
  shows "fst (main E w) = Inl (LinkVerificationFailed (target E)) \<and>
         trace (snd (main E w)) = trace w6 @ [Call (Rm (nmPath E))] \<and>
         fs (snd (main E w)) =
           (if Rm (nmPath E) \<in> set (faults E) then fs w5 else del (fs w5) (key E (nmPath E))) \<and>
         (Rm (nmPath E) \<notin> set (faults E) \<longrightarrow>
            lookup (fs (snd (main E w))) (key E (nmPath E)) = None) \<and>
         spawns (snd (main E w)) = spawns w"
proof -
  let ?wf = "w6\<lparr>trace := trace w6 @ [Call (Rm (nmPath E))],
      fs := (if Rm (nmPath E) \<in> set (faults E) then fs w6 else del (fs w6) (key E (nmPath E)))\<rparr>"
  have e: "main_establish E w4 = (Inl (LinkVerificationFailed (target E)), ?wf)"
    using s5 s6 by (simp add: main_establish_def bind_def attempt_rm_eq throw_def)
  have m: "main E w = (Inl (LinkVerificationFailed (target E)), ?wf)"
    using s1 s2 s3 s4 e by (simp add: main_def bind_def)
  have f6: "fs w6 = fs w5" using verifyLinkPointsTo_eq [OF s6] by simp
  have sp: "spawns w6 = spawns w"
    using quietD [OF quiet_calls(4) s1] quietD [OF quiet_isSymlink s2]
      quietD [OF quiet_main_relocate s3] quietD [OF quiet_main_preflight s4]
      quietD [OF quiet_calls(7) s5] quietD [OF quiet_verifyLinkPointsTo s6]
    by simp
  have gone: "lookup (del (fs w5) (key E (nmPath E))) (key E (nmPath E)) = None"
    using lookup_del_below [OF nmPath_nonempty, of "fs w5" E "[]"] by simp
  show ?thesis
    using m f6 sp gone by (simp add: spawns_def)
qed

lemma unverifiable_steps:
  "fst (mkdir unverifiable_env (storeDir unverifiable_env) sample_world) = Inr ()"
  "fst (isSymlink unverifiable_env (nmPath unverifiable_env)
     (snd (mkdir unverifiable_env (storeDir unverifiable_env) sample_world))) = Inr False"
  "fst (main_relocate unverifiable_env
     (snd (isSymlink unverifiable_env (nmPath unverifiable_env)
     (snd (mkdir unverifiable_env (storeDir unverifiable_env) sample_world))))) = Inr ()"
  "fst (main_preflight unverifiable_env (snd (main_relocate unverifiable_env
     (snd (isSymlink unverifiable_env (nmPath unverifiable_env)
     (snd (mkdir unverifiable_env (storeDir unverifiable_env) sample_world))))))) = Inr ()"
  "fst (symlink unverifiable_env (target unverifiable_env) (nmPath unverifiable_env)
     (linkType unverifiable_env)
     (snd (main_preflight unverifiable_env (snd (main_relocate unverifiable_env
     (snd (isSymlink unverifiable_env (nmPath unverifiable_env)
     (snd (mkdir unverifiable_env (storeDir unverifiable_env) sample_world))))))))) = Inr ()"
  "fst (verifyLinkPointsTo unverifiable_env (nmPath unverifiable_env) (target unverifiable_env)
     (snd (symlink unverifiable_env (target unverifiable_env) (nmPath unverifiable_env)
     (linkType unverifiable_env)
     (snd (main_preflight unverifiable_env (snd (main_relocate unverifiable_env
     (snd (isSymlink unverifiable_env (nmPath unverifiable_env)
     (snd (mkdir unverifiable_env (storeDir unverifiable_env) sample_world)))))))))))
     = Inr False"
  by (simp_all add: unverifiable_env_def sample_slot_def sample_defs script_defs)

theorem unverified_link_removed_witness:
  "fst (main unverifiable_env sample_world) = Inl (LinkVerificationFailed sample_target) \<and>
   lookup (fs (snd (main unverifiable_env sample_world))) (key unverifiable_env sample_slot)
     = None"
proof -
  define w1 where "w1 = snd (mkdir unverifiable_env (storeDir unverifiable_env) sample_world)"
  define w2 where "w2 = snd (isSymlink unverifiable_env (nmPath unverifiable_env) w1)"
  define w3 where "w3 = snd (main_relocate unverifiable_env w2)"
  define w4 where "w4 = snd (main_preflight unverifiable_env w3)"
  define w5 where "w5 = snd (symlink unverifiable_env (target unverifiable_env)
    (nmPath unverifiable_env) (linkType unverifiable_env) w4)"
  define w6 where "w6 = snd (verifyLinkPointsTo unverifiable_env (nmPath unverifiable_env)
    (target unverifiable_env) w5)"
  have s1: "mkdir unverifiable_env (storeDir unverifiable_env) sample_world = (Inr (), w1)"
    using unverifiable_steps(1) by (simp add: w1_def prod_eq_iff)
  have s2: "isSymlink unverifiable_env (nmPath unverifiable_env) w1 = (Inr False, w2)"
    using unverifiable_steps(2) by (simp add: w1_def w2_def prod_eq_iff)
  have s3: "main_relocate unverifiable_env w2 = (Inr (), w3)"
    using unverifiable_steps(3) by (simp add: w1_def w2_def w3_def prod_eq_iff)
  have s4: "main_preflight unverifiable_env w3 = (Inr (), w4)"
    using unverifiable_steps(4) by (simp add: w1_def w2_def w3_def w4_def prod_eq_iff)
  have s5: "symlink unverifiable_env (target unverifiable_env) (nmPath unverifiable_env)
      (linkType unverifiable_env) w4 = (Inr (), w5)"
    using unverifiable_steps(5) by (simp add: w1_def w2_def w3_def w4_def w5_def prod_eq_iff)
  have s6: "verifyLinkPointsTo unverifiable_env (nmPath unverifiable_env)
      (target unverifiable_env) w5 = (Inr False, w6)"
    using unverifiable_steps(6)
    by (simp add: w1_def w2_def w3_def w4_def w5_def w6_def prod_eq_iff)
  have t: "target unverifiable_env = sample_target" "nmPath unverifiable_env = sample_slot"
    "Rm sample_slot \<notin> set (faults unverifiable_env)"
    by (simp_all add: unverifiable_env_def sample_slot_def sample_defs script_defs)
  from unverified_link_removed [OF s1 s2 s3 s4 s5 s6]
  have a: "fst (main unverifiable_env sample_world)
      = Inl (LinkVerificationFailed (target unverifiable_env))"
    and b: "Rm (nmPath unverifiable_env) \<notin> set (faults unverifiable_env) \<longrightarrow>
      lookup (fs (snd (main unverifiable_env sample_world)))
        (key unverifiable_env (nmPath unverifiable_env)) = None"
    by blast+
  from a b t show ?thesis by simp
qed

subsection \<open>The preflight of Windows\<close>










subsection \<open>Relocation\<close>

text \<open>
  C2, as stated, fails for a directory without entries: the run succeeds, the
  installer is started on the empty cache target and leaves a package there, so the
  cache target does not hold exactly what the slot held.
\<close>

theorem relocation_counterexample:
  "lookup (fs empty_dir_world) (key writing_npm_env (nmPath writing_npm_env)) = Some (Dir []) \<and>
   fst (main writing_npm_env empty_dir_world) = Inr () \<and>
   lookup (fs (snd (main writing_npm_env empty_dir_world)))
     (key writing_npm_env (target writing_npm_env)) = Some (Dir [(''left-pad'', Dir [])])"
  by (simp add: writing_npm_env_def empty_dir_tree_def empty_dir_world_def sample_defs script_defs)

text \<open>
  C2, amended. The slot is a real directory with at least one entry and the run
  succeeds (on Windows: with the scratch directory of the preflight off the way to
  the cache target). Then the cache target holds exactly the entries the slot held,
  with everything below them, and the slot is a link that reads back as the cache
  target.
\<close>

theorem relocation_keeps_contents:
  assumes run: "main E w = (Inr (), w')"
    and dir: "lookup (fs w) (key E (nmPath E)) = Some (Dir (d # ds))"
    and tmp: "isWin E \<longrightarrow> apart (key E (tmpRoot E)) (key E (target E))"
  shows "lookup (fs w') (key E (target E)) = Some (Dir (d # ds)) \<and>
         link_ok E (fs w') (nmPath E) (target E)"
proof -
  let ?nk = "key E (nmPath E)" and ?tk = "key E (target E)" and ?sk = "key E (storeDir E)"
  from run obtain x1 w1 where s1: "mkdir E (storeDir E) w = (Inr x1, w1)"
    and r1: "bind (isSymlink E (nmPath E))
       (\<lambda>l. if l then bind (main_confirm E) (\<lambda>_. main_install_linked E)
            else bind (main_relocate E)
                   (\<lambda>_. bind (main_preflight E)
                   (\<lambda>_. bind (main_establish E)
                   (\<lambda>_. main_install_fresh E)))) w1 = (Inr (), w')"
    unfolding main_def by (erule bind_InrE)
  from mkdir_InrD [OF s1] have mk: "mkdirp (fs w) ?sk = Some (fs w1)" by simp
  from mkdirp_preserve [OF mk dir] obtain n1 where n1: "lookup (fs w1) ?nk = Some n1"
    and k1: "kind_of n1 = IsDir" by auto
  then obtain ds1 where d1: "lookup (fs w1) ?nk = Some (Dir ds1)" by (cases n1) simp_all
  let ?w2 = "w1\<lparr>trace := trace w1 @ [Call (Lstat (nmPath E))]\<rparr>"
  have "isSymlink E (nmPath E) w1 = (Inr False, ?w2)"
    using d1 by (simp add: isSymlink_eq)
  with r1 have r2: "bind (main_relocate E)
                   (\<lambda>_. bind (main_preflight E)
                   (\<lambda>_. bind (main_establish E)
                   (\<lambda>_. main_install_fresh E))) ?w2 = (Inr (), w')"
    by (simp add: bind_def)
  then obtain x3 w3 where s3: "main_relocate E ?w2 = (Inr x3, w3)"
    and r3: "bind (main_preflight E)
                   (\<lambda>_. bind (main_establish E)
                   (\<lambda>_. main_install_fresh E)) w3 = (Inr (), w')"
    by (erule bind_InrE)
  from r3 obtain x4 w4 where s4: "main_preflight E w3 = (Inr x4, w4)"
    and r4: "bind (main_establish E) (\<lambda>_. main_install_fresh E) w4 = (Inr (), w')"
    by (erule bind_InrE)
  from r4 obtain x5 w5 where s5: "main_establish E w4 = (Inr x5, w5)"
    and s6: "main_install_fresh E w5 = (Inr (), w')"
    by (erule bind_InrE)
  from main_establish_InrD [OF s5] obtain raw where
    free: "lookup (fs w4) ?nk = None" and put5: "fs w5 = put (fs w4) ?nk (Link raw)"
    and ok5: "link_ok E (fs w5) (nmPath E) (target E)" by blast
  from main_install_fresh_InrD [OF s6] obtain es where
    es: "lookup (fs w5) ?tk = Some (Dir es)" and same: "es \<noteq> [] \<longrightarrow> fs w' = fs w5" by blast
  from ok5 have st: "Lstat (nmPath E) \<notin> set (faults E)"
    and lk: "\<exists>l. lookup (fs w5) ?nk = Some (Link l)"
    by (auto simp: link_ok_def split: option.splits node.splits)
  from lk es have ne: "?nk \<noteq> ?tk" by auto
  have d2: "lookup (fs ?w2) ?nk = Some (Dir ds1)" using d1 by simp
  from main_relocate_moves [OF s3 d2 st ne]
  have t3: "lookup (fs w3) ?tk = Some (Dir ds1)" and ap: "apart ?nk ?tk" by simp_all
  have "\<not> prefix ?nk ?sk"
    using ap store_prefix_target [of E] by (auto simp: apart_def dest: prefix_order.trans)
  from mkdirp_other [OF mk this] dir d1 have ds1: "ds1 = d # ds" by simp
  have "keeps ?tk (main_preflight E)"
    using tmp by (intro keeps_main_preflight) simp
  with s4 have t4: "lookup (fs w4) ?tk = lookup (fs w3) ?tk" by (metis keeps_def snd_conv)
  have t5: "lookup (fs w5) ?tk = lookup (fs w4) ?tk"
    using ap put5 by (simp add: apart_def lookup_put_other)
  from t3 t4 t5 ds1 es have "es = d # ds" by simp
  with same have "fs w' = fs w5" by simp
  with t3 t4 t5 ds1 ok5 show ?thesis by simp
qed

theorem relocation_keeps_contents_witness:
  "lookup (fs (snd (main sample_env sample_world_real))) (key sample_env (target sample_env))
     = Some (Dir [(''left-pad'', Dir [(''index.js'', File ''module.exports = 1'')])]) \<and>
   link_ok sample_env (fs (snd (main sample_env sample_world_real))) (nmPath sample_env)
     (target sample_env)"
proof -
  have "fst (main sample_env sample_world_real) = Inr ()"
    by (simp add: sample_tree_real_def sample_world_real_def sample_defs script_defs)
  then have run: "main sample_env sample_world_real
      = (Inr (), snd (main sample_env sample_world_real))"
    by (simp add: prod_eq_iff)
  have dir: "lookup (fs sample_world_real) (key sample_env (nmPath sample_env))
      = Some (Dir [(''left-pad'', Dir [(''index.js'', File ''module.exports = 1'')])])"
    by (simp add: sample_tree_real_def sample_world_real_def sample_defs script_defs)
  have tmp: "isWin sample_env \<longrightarrow>
      apart (key sample_env (tmpRoot sample_env)) (key sample_env (target sample_env))"
    by (simp add: isWin_def sample_env_def)
  from relocation_keeps_contents [OF run dir tmp] show ?thesis .
qed

end
